theory Spec2Isabelle
  imports Main
begin

section \<open>wxdown-service: src/main/utils.ts\<close>

text \<open>
  A shallow embedding of \<^verbatim>\<open>src/main/utils.ts\<close>.

  JavaScript strings are modelled as \<open>string\<close>, read as the bytes of the string in UTF-8;
  a string that is not well formed has lone surrogates, and a lone surrogate
  (U+D800 to U+DFFF) is the three bytes \<^verbatim>\<open>ED A0..BF 80..BF\<close> that UTF-8 leaves unused.
  Numbers that the code uses as epoch milliseconds are \<open>int\<close>.
  A thrown exception is a value \<open>Inl e\<close> of a sum type, a normal return is \<open>Inr v\<close>.

  The functions of the JavaScript runtime whose grammar is not the subject of this
  development (\<^verbatim>\<open>JSON.parse\<close>, \<^verbatim>\<open>JSON.stringify\<close>, the \<^verbatim>\<open>URL\<close> constructor, \<^verbatim>\<open>Date.now\<close>,
  \<^verbatim>\<open>dayjs(..).format\<close>) are fields of the record \<open>runtime\<close>: every theorem holds for
  every behaviour of them.
\<close>

subsection \<open>Errors and the runtime\<close>

text \<open>
  What the code can throw: the three built-in errors it meets, a file-system error with
  its \<^verbatim>\<open>code\<close> (\<^verbatim>\<open>ENOENT\<close>, \<^verbatim>\<open>EACCES\<close>, ...), and any other \<^verbatim>\<open>Error\<close> with its message.
\<close>

datatype js_error =
  SyntaxError
  | TypeError
  | URIError
  | IOError string
  | Error string

text \<open>\<^verbatim>\<open>interface Credential\<close> (utils.ts, lines 231-238): one captured session.\<close>

record Credential =
  biz :: string
  url :: string
  set_cookie :: string
  timestamp :: int
  nickname :: string
  round_head_img :: string

text \<open>
  \<^verbatim>\<open>interface ParsedCredential\<close> (lines 220-230). The three fields that \<open>Credential\<close> has
  too carry a prime.
\<close>

record ParsedCredential =
  nickname' :: string
  round_head_img' :: string
  biz' :: string
  uin :: string
  key :: string
  pass_ticket :: string
  wap_sid2 :: string
  time :: string
  valid :: bool

text \<open>
  \<open>URLSearchParams\<close>: the decoded name/value pairs of a query string, in order.
  \<^verbatim>\<open>searchParams.get(name)\<close> is the value of the first pair with that name, or null.
\<close>

type_synonym URLSearchParams = "(string \<times> string) list"

definition searchParams_get :: "URLSearchParams \<Rightarrow> string \<Rightarrow> string option" where
  "searchParams_get ps name = map_of ps name"

text \<open>
  The runtime.
  \<^item> \<open>JSON_parse s\<close> is \<open>None\<close> when \<^verbatim>\<open>JSON.parse(s)\<close> throws a SyntaxError, and otherwise
    the parsed value, which the code types as \<^verbatim>\<open>Credential[]\<close> (line 243); the model
    covers the inputs of that declared type.
  \<^item> \<open>URL_new s\<close> is \<open>None\<close> when \<^verbatim>\<open>new URL(s)\<close> throws a TypeError, and otherwise the
    \<^verbatim>\<open>searchParams\<close> of the URL.
  \<^item> \<open>Date_now k\<close> is what the call of \<^verbatim>\<open>Date.now()\<close> that has \<open>k\<close> calls before it returns.
  \<^item> \<open>dayjs_format t\<close> is \<^verbatim>\<open>dayjs(t).format('YYYY-MM-DD HH:mm:ss')\<close>.
\<close>

record runtime =
  JSON_parse :: "string \<Rightarrow> Credential list option"
  JSON_stringify :: "Credential list \<Rightarrow> string"
  URL_new :: "string \<Rightarrow> URLSearchParams option"
  Date_now :: "nat \<Rightarrow> int"
  dayjs_format :: "int \<Rightarrow> string"

subsection \<open>Strings of the runtime\<close>

text \<open>JavaScript truthiness of a \<^verbatim>\<open>string | null\<close>: null and the empty string are falsy.\<close>

fun truthy :: "string option \<Rightarrow> bool" where
  "truthy None = False"
| "truthy (Some s) = (s \<noteq> [])"

definition startsWith :: "string \<Rightarrow> string \<Rightarrow> bool" where
  "startsWith s p = (take (length p) s = p)"

text \<open>
  A lone surrogate somewhere in a string: the byte \<^verbatim>\<open>ED\<close> (which only starts a character)
  followed by a byte from \<^verbatim>\<open>A0\<close> to \<^verbatim>\<open>BF\<close>.
\<close>

fun has_lone_surrogate :: "string \<Rightarrow> bool" where
  "has_lone_surrogate [] = False"
| "has_lone_surrogate [c] = False"
| "has_lone_surrogate (c # d # cs) =
     ((c = CHR 0xED \<and> 0xA0 \<le> (of_char d :: nat) \<and> (of_char d :: nat) \<le> 0xBF)
      \<or> has_lone_surrogate (d # cs))"

text \<open>
  The same, stated without the scan: at some position the byte \<^verbatim>\<open>ED\<close> stands before a
  byte from \<^verbatim>\<open>A0\<close> to \<^verbatim>\<open>BF\<close>.
\<close>

definition lone_surrogate_in :: "string \<Rightarrow> bool" where
  "lone_surrogate_in s =
     (\<exists>i. Suc i < length s \<and> s ! i = CHR 0xED
        \<and> 0xA0 \<le> (of_char (s ! Suc i) :: nat) \<and> (of_char (s ! Suc i) :: nat) \<le> 0xBF)"

text \<open>
  \<^verbatim>\<open>encodeURIComponent\<close>: a URIError when the string has a lone surrogate; otherwise every
  byte but those of \<^verbatim>\<open>A-Z a-z 0-9 - _ . ! ~ * ' ( )\<close> becomes \<^verbatim>\<open>%XX\<close> with upper-case
  hexadecimal digits.
\<close>

definition uri_unreserved :: "char \<Rightarrow> bool" where
  "uri_unreserved c =
     (c \<in> set ''ABCDEFGHIJKLMNOPQRSTUVWXYZabcdefghijklmnopqrstuvwxyz0123456789-_.!~*()''
      \<or> c = CHR 0x27)"

definition hex_digit :: "nat \<Rightarrow> char" where
  "hex_digit n = ''0123456789ABCDEF'' ! (n mod 16)"

definition percent_encode :: "char \<Rightarrow> string" where
  "percent_encode c =
     [CHR ''%'', hex_digit ((of_char c :: nat) div 16), hex_digit ((of_char c :: nat) mod 16)]"

definition encodeURIComponent :: "string \<Rightarrow> js_error + string" where
  "encodeURIComponent s =
     (if has_lone_surrogate s then Inl URIError
      else Inr (concat (map (\<lambda>c. if uri_unreserved c then [c] else percent_encode c) s)))"

subsection \<open>The pattern \<^verbatim>\<open>/wap_sid2=(?<wap_sid2>.+?);/\<close>\<close>

text \<open>
  \<^verbatim>\<open>.\<close> matches everything but a line terminator: LF, CR, U+2028 and U+2029 (in UTF-8
  the bytes E2 80 A8 and E2 80 A9).
\<close>

definition line_terminator_at :: "string \<Rightarrow> bool" where
  "line_terminator_at s =
     (case s of
        [] \<Rightarrow> False
      | c # cs \<Rightarrow>
          c = CHR 0x0A \<or> c = CHR 0x0D
          \<or> (c = CHR 0xE2 \<and> (take 2 cs = [CHR 0x80, CHR 0xA8] \<or> take 2 cs = [CHR 0x80, CHR 0xA9])))"

text \<open>
  \<open>lazy_until_semicolon acc s\<close>: the group has matched \<open>acc\<close> (not empty) and goes on
  lazily over \<open>s\<close>: it stops at the first \<^verbatim>\<open>;\<close>, and fails at a line terminator or at
  the end of the string.
\<close>

fun lazy_until_semicolon :: "string \<Rightarrow> string \<Rightarrow> string option" where
  "lazy_until_semicolon acc [] = None"
| "lazy_until_semicolon acc (c # cs) =
     (if c = CHR '';'' then Some acc
      else if line_terminator_at (c # cs) then None
      else lazy_until_semicolon (acc @ [c]) cs)"

text \<open>
  The match that starts at the head of \<open>s\<close>: the literal \<^verbatim>\<open>wap_sid2=\<close>, one character
  that is not a line terminator (it may be a \<^verbatim>\<open>;\<close>), and the lazy rest.
\<close>

definition match_here :: "string \<Rightarrow> string option" where
  "match_here s =
     (if startsWith s ''wap_sid2='' then
        (case drop 9 s of
           [] \<Rightarrow> None
         | c # cs \<Rightarrow> if line_terminator_at (c # cs) then None else lazy_until_semicolon [c] cs)
      else None)"

text \<open>
  \<^verbatim>\<open>item.set_cookie.match(/wap_sid2=(?<wap_sid2>.+?);/)\<close>: the leftmost start that matches;
  the result is the named group, \<open>None\<close> when the match result is null.
\<close>

fun match_wap_sid2 :: "string \<Rightarrow> string option" where
  "match_wap_sid2 [] = None"
| "match_wap_sid2 (c # cs) =
     (case match_here (c # cs) of
        Some g \<Rightarrow> Some g
      | None \<Rightarrow> match_wap_sid2 cs)"

text \<open>
  \<open>v\<close>, followed by \<open>rest\<close>, is a run of characters that \<^verbatim>\<open>.\<close> matches: no line
  terminator starts in it.
\<close>

definition no_line_terminator :: "string \<Rightarrow> string \<Rightarrow> bool" where
  "no_line_terminator v rest = (\<forall>i<length v. \<not> line_terminator_at (drop i (v @ rest)))"

text \<open>
  A header holds a token \<^verbatim>\<open>wap_sid2=...;\<close> when it is some text, then \<^verbatim>\<open>wap_sid2=\<close>, then a
  value that is not empty and has no line terminator, then \<^verbatim>\<open>;\<close>, then some text. This
  is the language of the pattern, stated without the matcher above.
\<close>

definition has_cookie_token :: "string \<Rightarrow> bool" where
  "has_cookie_token header =
     (\<exists>pre v post. header = pre @ ''wap_sid2='' @ v @ CHR '';'' # post \<and> v \<noteq> []
        \<and> no_line_terminator v (CHR '';'' # post))"

subsection \<open>\<^verbatim>\<open>Array.prototype.sort\<close>\<close>

text \<open>
  \<^verbatim>\<open>list.sort(cmp)\<close> is a stable sort (ECMAScript 2019): with a consistent comparator its
  result is the one that inserting the elements from the right, each before the first
  element it does not come after, gives.
\<close>

fun insert_by :: "('a \<Rightarrow> 'a \<Rightarrow> int) \<Rightarrow> 'a \<Rightarrow> 'a list \<Rightarrow> 'a list" where
  "insert_by cmp x [] = [x]"
| "insert_by cmp x (y # ys) =
     (if cmp x y \<le> 0 then x # y # ys else y # insert_by cmp x ys)"

definition Array_sort :: "('a \<Rightarrow> 'a \<Rightarrow> int) \<Rightarrow> 'a list \<Rightarrow> 'a list" where
  "Array_sort cmp xs = foldr (insert_by cmp) xs []"

subsection \<open>\<^verbatim>\<open>parseCredentialData\<close> (lines 241-284)\<close>

text \<open>The comparator of line 251: \<^verbatim>\<open>(a, b) => b.timestamp - a.timestamp\<close>.\<close>

definition by_timestamp_desc :: "Credential \<Rightarrow> Credential \<Rightarrow> int" where
  "by_timestamp_desc a b = timestamp b - timestamp a"

text \<open>Line 258-262: the cookie token, null when the pattern does not match.\<close>

definition cookie_token :: "Credential \<Rightarrow> string option" where
  "cookie_token item =
     (case match_wap_sid2 (set_cookie item) of
        None \<Rightarrow> None
      | Some g \<Rightarrow> if g \<noteq> [] then Some g else None)"

text \<open>
  Lines 270-272: the avatar goes through the image proxy when it is not empty;
  \<^verbatim>\<open>encodeURIComponent\<close> can throw there.
\<close>

definition proxied_head_img :: "string \<Rightarrow> js_error + string" where
  "proxied_head_img img =
     (if img \<noteq> [] then
        (case encodeURIComponent img of
           Inl e \<Rightarrow> Inl e
         | Inr encoded \<Rightarrow> Inr (''https://thirsty-alligator-94.deno.dev?url='' @ encoded))
      else Inr img)"

text \<open>
  The body of the loop (lines 252-280) on one item. \<open>k\<close> counts the calls of
  \<^verbatim>\<open>Date.now()\<close> made so far. The result is \<open>Inl TypeError\<close> when \<^verbatim>\<open>new URL(item.url)\<close>
  throws, \<open>Inr None\<close> at \<^verbatim>\<open>continue\<close>, \<open>Inl URIError\<close> when \<^verbatim>\<open>encodeURIComponent\<close> throws
  in the object literal of the push (before \<^verbatim>\<open>Date.now()\<close> is read), and
  \<open>Inr (Some p)\<close> when \<open>p\<close> is pushed. Neither call is inside a \<^verbatim>\<open>try\<close>. The
  constants \<^verbatim>\<open>__biz\<close>, \<^verbatim>\<open>uin\<close>, \<^verbatim>\<open>key\<close>, \<^verbatim>\<open>pass_ticket\<close> and \<^verbatim>\<open>wap_sid2\<close> of the source are
  \<open>biz_v\<close>, ..., \<open>wap_sid2_v\<close> here; \<open>the\<close> is the non-null assertion, used on
  values that the test of line 264 has found truthy.
\<close>

definition parse_item :: "runtime \<Rightarrow> nat \<Rightarrow> Credential \<Rightarrow> js_error + ParsedCredential option" where
  "parse_item rt k item =
     (case URL_new rt (url item) of
        None \<Rightarrow> Inl TypeError
      | Some searchParams \<Rightarrow>
          (let biz_v = searchParams_get searchParams ''__biz'';
               uin_v = searchParams_get searchParams ''uin'';
               key_v = searchParams_get searchParams ''key'';
               pass_ticket_v = searchParams_get searchParams ''pass_ticket'';
               wap_sid2_v = cookie_token item
           in if \<not> truthy biz_v \<or> \<not> truthy uin_v \<or> \<not> truthy key_v
                 \<or> \<not> truthy pass_ticket_v \<or> \<not> truthy wap_sid2_v
              then Inr None
              else
                (case proxied_head_img (round_head_img item) of
                   Inl e \<Rightarrow> Inl e
                 | Inr img \<Rightarrow>
                     Inr (Some \<lparr>
                       nickname' = nickname item,
                       round_head_img' = img,
                       biz' = the biz_v,
                       uin = the uin_v,
                       key = the key_v,
                       pass_ticket = the pass_ticket_v,
                       wap_sid2 = the wap_sid2_v,
                       time = dayjs_format rt (timestamp item),
                       valid = (Date_now rt k < timestamp item + 1000 * 60 * 25)\<rparr>))))"

text \<open>
  The \<^verbatim>\<open>for ... of\<close> loop of line 251: \<open>result\<close> is the array built so far, \<open>k\<close> the
  number of calls of \<^verbatim>\<open>Date.now()\<close> so far (one for each pushed element).
\<close>

fun parse_loop :: "runtime \<Rightarrow> Credential list \<Rightarrow> nat \<Rightarrow> ParsedCredential list
    \<Rightarrow> js_error + ParsedCredential list" where
  "parse_loop rt [] k result = Inr result"
| "parse_loop rt (item # rest) k result =
     (case parse_item rt k item of
        Inl e \<Rightarrow> Inl e
      | Inr None \<Rightarrow> parse_loop rt rest k result
      | Inr (Some p) \<Rightarrow> parse_loop rt rest (Suc k) (result @ [p]))"

definition parseCredentialData :: "runtime \<Rightarrow> string \<Rightarrow> js_error + ParsedCredential list" where
  "parseCredentialData rt data =
     (case JSON_parse rt data of
        None \<Rightarrow> Inr []
      | Some list \<Rightarrow> parse_loop rt (Array_sort by_timestamp_desc list) 0 [])"

text \<open>
  A session has all five required fields when its URL has the query parameters
  \<^verbatim>\<open>__biz\<close>, \<^verbatim>\<open>uin\<close>, \<^verbatim>\<open>key\<close> and \<^verbatim>\<open>pass_ticket\<close>, each with a value that is not empty (the
  value of a parameter is that of the first pair with its name), and its set-cookie
  header holds a token \<^verbatim>\<open>wap_sid2=...;\<close>. A session whose \<^verbatim>\<open>url\<close> is no URL has no query
  parameter, so it has none of the fields. The definition is written without the
  functions of the code (\<open>truthy\<close>, \<open>searchParams_get\<close>, \<open>cookie_token\<close>, the matcher).
\<close>

definition has_all_five :: "runtime \<Rightarrow> Credential \<Rightarrow> bool" where
  "has_all_five rt item =
     (case URL_new rt (url item) of
        None \<Rightarrow> False
      | Some ps \<Rightarrow>
          (\<forall>name\<in>set [''__biz'', ''uin'', ''key'', ''pass_ticket''].
              \<exists>v. map_of ps name = Some v \<and> v \<noteq> [])
          \<and> has_cookie_token (set_cookie item))"

text \<open>
  The sessions behind the output, in the order of the output: the sessions with all five
  fields, as the sort of line 251 leaves them.
\<close>

definition emitted_sessions :: "runtime \<Rightarrow> Credential list \<Rightarrow> Credential list" where
  "emitted_sessions rt list = filter (has_all_five rt) (Array_sort by_timestamp_desc list)"

text \<open>
  What the loop body raises on a session, if anything: the TypeError of \<^verbatim>\<open>new URL\<close> when
  the \<^verbatim>\<open>url\<close> is no URL, and the URIError of \<^verbatim>\<open>encodeURIComponent\<close> when the session has
  all five fields and its avatar has a lone surrogate.
\<close>

definition item_error :: "runtime \<Rightarrow> Credential \<Rightarrow> js_error option" where
  "item_error rt item =
     (if URL_new rt (url item) = None then Some TypeError
      else if has_all_five rt item \<and> lone_surrogate_in (round_head_img item) then Some URIError
      else None)"

subsection \<open>\<^verbatim>\<open>readFileContent\<close> and \<^verbatim>\<open>writeFileContent\<close> (lines 308-332)\<close>

text \<open>
  The disk: the content of every file, and for every path whether reading or writing it
  fails and with which code. A write that fails may leave anything at the path; the
  disk says what (\<open>None\<close>: no file). \<open>events\<close> logs the calls of \<^verbatim>\<open>fs.readFile\<close> and
  \<^verbatim>\<open>fs.writeFile\<close>.
\<close>

datatype fs_event = ReadFile string | WriteFile string string

record disk =
  files :: "string \<Rightarrow> string option"
  read_error :: "string \<Rightarrow> string option"
  write_error :: "string \<Rightarrow> (string \<times> string option) option"
  events :: "fs_event list"

text \<open>
  The promise of \<open>readFileContent\<close> rejects with the error (\<open>Inl\<close>) or resolves with the
  data (\<open>Inr\<close>). A file that does not exist is the error \<^verbatim>\<open>ENOENT\<close>.
\<close>

definition readFileContent :: "disk \<Rightarrow> string \<Rightarrow> (js_error + string) \<times> disk" where
  "readFileContent d filepath =
     (let d' = d\<lparr>events := events d @ [ReadFile filepath]\<rparr>
      in case read_error d filepath of
           Some code \<Rightarrow> (Inl (IOError code), d')
         | None \<Rightarrow>
             (case files d filepath of
                None \<Rightarrow> (Inl (IOError ''ENOENT''), d')
              | Some data \<Rightarrow> (Inr data, d')))"

text \<open>
  \<open>writeFileContent\<close>: on an error the promise is rejected (the \<^verbatim>\<open>resolve()\<close> that follows
  \<^verbatim>\<open>reject(err)\<close> at line 329 has no effect on a settled promise).
\<close>

definition writeFileContent :: "disk \<Rightarrow> string \<Rightarrow> string \<Rightarrow> (js_error + unit) \<times> disk" where
  "writeFileContent d filepath content =
     (let d' = d\<lparr>events := events d @ [WriteFile filepath content]\<rparr>
      in case write_error d filepath of
           Some (code, left) \<Rightarrow> (Inl (IOError code), d'\<lparr>files := (files d)(filepath := left)\<rparr>)
         | None \<Rightarrow> (Inr (), d'\<lparr>files := (files d)(filepath \<mapsto> content)\<rparr>))"

subsection \<open>\<^verbatim>\<open>removeBizCredential\<close> (lines 287-305)\<close>

text \<open>
  The body of the outer \<^verbatim>\<open>try\<close> (lines 289-301). \<open>credentialJsonPath\<close> is imported from
  \<^verbatim>\<open>./mitmproxy-manager\<close> and is a parameter here. An \<open>Inl\<close> is an exception that leaves
  the block; the inner \<^verbatim>\<open>catch\<close> (lines 294-297) returns false.
\<close>

definition removeBizCredential_try ::
    "runtime \<Rightarrow> string \<Rightarrow> disk \<Rightarrow> string \<Rightarrow> (js_error + bool) \<times> disk" where
  "removeBizCredential_try rt credentialJsonPath d target =
     (case readFileContent d credentialJsonPath of
        (Inl e, d1) \<Rightarrow> (Inl e, d1)
      | (Inr data, d1) \<Rightarrow>
          (case JSON_parse rt data of
             None \<Rightarrow> (Inr False, d1)
           | Some list \<Rightarrow>
               (let list' = filter (\<lambda>item. biz item \<noteq> target) list
                in case writeFileContent d1 credentialJsonPath (JSON_stringify rt list') of
                     (Inl e, d2) \<Rightarrow> (Inl e, d2)
                   | (Inr u, d2) \<Rightarrow> (Inr True, d2))))"

text \<open>The outer \<^verbatim>\<open>catch\<close> (lines 302-304) turns every exception into \<^verbatim>\<open>false\<close>.\<close>

definition removeBizCredential ::
    "runtime \<Rightarrow> string \<Rightarrow> disk \<Rightarrow> string \<Rightarrow> (js_error + bool) \<times> disk" where
  "removeBizCredential rt credentialJsonPath d target =
     (case removeBizCredential_try rt credentialJsonPath d target of
        (Inl e, d') \<Rightarrow> (Inr False, d')
      | (Inr b, d') \<Rightarrow> (Inr b, d'))"

subsection \<open>The resources (lines 16-24)\<close>

text \<open>
  A JavaScript \<^verbatim>\<open>Map\<close> with string keys: the entries in insertion order. \<^verbatim>\<open>set\<close> replaces
  the value of a key that is there and appends a new key; \<^verbatim>\<open>values()\<close> iterates in
  insertion order.
\<close>

type_synonym 'v JSMap = "(string \<times> 'v) list"

definition Map_has :: "'v JSMap \<Rightarrow> string \<Rightarrow> bool" where
  "Map_has m k = (k \<in> set (map fst m))"

definition Map_get :: "'v JSMap \<Rightarrow> string \<Rightarrow> 'v option" where
  "Map_get m k = map_of m k"

fun Map_set :: "'v JSMap \<Rightarrow> string \<Rightarrow> 'v \<Rightarrow> 'v JSMap" where
  "Map_set [] k v = [(k, v)]"
| "Map_set ((k', v') # m) k v = (if k' = k then (k, v) # m else (k', v') # Map_set m k v)"

definition Map_values :: "'v JSMap \<Rightarrow> 'v list" where
  "Map_values m = map snd m"

text \<open>
  Objects are references: an \<^verbatim>\<open>http.Server\<close> and a \<^verbatim>\<open>Browser\<close> are numbers, and the state
  of a server (its port, and whether it listens) is looked up by its number. \<open>Resource\<close>
  is \<^verbatim>\<open>interface Resource\<close>.
\<close>

type_synonym server_ref = nat

type_synonym browser_ref = nat

record http_Server =
  port :: nat
  listening :: bool

record Resource =
  fileServer :: "server_ref JSMap"
  browser :: "browser_ref option"

text \<open>
  The process: \<^verbatim>\<open>_resource\<close>, the servers created so far, and the servers that wait for
  the outcome of \<^verbatim>\<open>listen\<close>, each with the \<open>rootDirectory\<close> that its callback holds.
\<close>

record process =
  resource :: Resource
  servers :: "server_ref \<Rightarrow> http_Server option"
  created :: nat
  pending :: "(server_ref \<times> string) list"

text \<open>\<^verbatim>\<open>_resource\<close> as lines 21-24 initialise it, in a process with no server yet.\<close>

definition initial_process :: process where
  "initial_process =
     \<lparr>resource = \<lparr>fileServer = [], browser = None\<rparr>, servers = (\<lambda>r. None), created = 0,
      pending = []\<rparr>"

subsection \<open>\<^verbatim>\<open>startFileServer\<close> (lines 47-123)\<close>

text \<open>
  The promise that a call returns: settled at once (line 49), or waiting for the
  outcome of \<^verbatim>\<open>listen\<close> on the server it created.
\<close>

datatype promise = Settled "js_error + server_ref" | Waiting server_ref

text \<open>
  The synchronous part of a call: lines 48-50, and otherwise the creation of the server
  and the call of \<^verbatim>\<open>server.listen(0, ...)\<close>. The registry is not written here.
\<close>

definition startFileServer_call :: "process \<Rightarrow> string \<Rightarrow> promise \<times> process" where
  "startFileServer_call st rootDirectory =
     (if Map_has (fileServer (resource st)) rootDirectory
      then (Settled (Inr (the (Map_get (fileServer (resource st)) rootDirectory))), st)
      else
        (let server = created st
         in (Waiting server,
             st\<lparr>created := Suc server,
                servers := (servers st)(server \<mapsto> \<lparr>port = 0, listening = False\<rparr>),
                pending := pending st @ [(server, rootDirectory)]\<rparr>)))"

text \<open>
  The callback of lines 112-117, run when the system has assigned the port: it writes the
  registry (line 115) and resolves the promise with the server.
\<close>

definition on_listening :: "process \<Rightarrow> server_ref \<Rightarrow> nat \<Rightarrow> process" where
  "on_listening st server assigned =
     (case map_of (pending st) server of
        None \<Rightarrow> st
      | Some rootDirectory \<Rightarrow>
          st\<lparr>servers := (servers st)(server \<mapsto> \<lparr>port = assigned, listening = True\<rparr>),
             resource := (resource st)\<lparr>fileServer :=
               Map_set (fileServer (resource st)) rootDirectory server\<rparr>,
             pending := filter (\<lambda>e. fst e \<noteq> server) (pending st)\<rparr>)"

text \<open>The \<^verbatim>\<open>error\<close> event of a server that waits (line 118): the promise rejects.\<close>

definition on_error :: "process \<Rightarrow> server_ref \<Rightarrow> process" where
  "on_error st server = st\<lparr>pending := filter (\<lambda>e. fst e \<noteq> server) (pending st)\<rparr>"

text \<open>
  A call that is awaited: nothing else runs between the call and the settlement of its
  promise. \<open>os_listen n\<close> is what \<^verbatim>\<open>listen\<close> leads to for the server \<open>n\<close>: the port that
  the system assigns, or an error.
\<close>

definition startFileServer ::
    "(server_ref \<Rightarrow> js_error + nat) \<Rightarrow> process \<Rightarrow> string \<Rightarrow> (js_error + server_ref) \<times> process" where
  "startFileServer os_listen st rootDirectory =
     (case startFileServer_call st rootDirectory of
        (Settled r, st1) \<Rightarrow> (r, st1)
      | (Waiting server, st1) \<Rightarrow>
          (case os_listen server of
             Inl e \<Rightarrow> (Inl e, on_error st1 server)
           | Inr assigned \<Rightarrow> (Inr server, on_listening st1 server assigned)))"

subsection \<open>\<^verbatim>\<open>cleanup\<close> (lines 148-164)\<close>

text \<open>
  What \<open>cleanup\<close> does, in the order it does it: the calls of \<^verbatim>\<open>log\<close> (with the line of
  the call) and the steps of the teardown.
\<close>

datatype teardown_event =
  Log nat
  | MitmproxyManager_close
  | osProxy_closeProxy
  | Browser_close browser_ref
  | Server_close server_ref

text \<open>
  What becomes of a promise that is awaited: it resolves, it rejects with an error, or
  it never settles.
\<close>

datatype settlement = Resolves | Rejects js_error | Stays_pending

text \<open>
  The collaborators: what becomes of the promises of \<^verbatim>\<open>MitmproxyManager.close()\<close>,
  \<^verbatim>\<open>osProxy.closeProxy()\<close> and \<^verbatim>\<open>browser.close()\<close>, and whether the callback of
  \<^verbatim>\<open>server.close\<close> is ever called for a server. The promise of line 159 cannot reject:
  the callback resolves it, also when it is given an error; and it is not called as long
  as a connection to the server stays open.
\<close>

record collaborators =
  MitmproxyManager_close_promise :: settlement
  osProxy_closeProxy_promise :: settlement
  Browser_close_promise :: settlement
  Server_close_calls_back :: "server_ref \<Rightarrow> bool"

text \<open>
  The loop of lines 157-162 over \<^verbatim>\<open>_resource.fileServer.values()\<close>. \<^verbatim>\<open>server.close\<close> stops
  the server from listening at once; the loop goes on to the next server when the
  callback has been called, and waits for ever when it is not.
\<close>

fun close_servers :: "collaborators \<Rightarrow> server_ref list \<Rightarrow> teardown_event list \<Rightarrow> process
    \<Rightarrow> settlement \<times> teardown_event list \<times> process" where
  "close_servers co [] trace st = (Resolves, trace, st)"
| "close_servers co (server # rest) trace st =
     (let trace' = trace @ [Log 158, Server_close server];
          st' = st\<lparr>servers := (servers st)(server :=
                  map_option (\<lambda>s. s\<lparr>listening := False\<rparr>) (servers st server))\<rparr>
      in if Server_close_calls_back co server then close_servers co rest trace' st'
         else (Stays_pending, trace', st'))"

text \<open>Lines 157-163: the loop, and the last \<^verbatim>\<open>log\<close> when the loop has come to its end.\<close>

definition cleanup_servers :: "collaborators \<Rightarrow> teardown_event list \<Rightarrow> process
    \<Rightarrow> settlement \<times> teardown_event list \<times> process" where
  "cleanup_servers co trace st =
     (case close_servers co (Map_values (fileServer (resource st))) trace st of
        (Resolves, trace', st') \<Rightarrow> (Resolves, trace' @ [Log 163], st')
      | (Rejects e, trace', st') \<Rightarrow> (Rejects e, trace', st')
      | (Stays_pending, trace', st') \<Rightarrow> (Stays_pending, trace', st'))"

text \<open>
  \<open>cleanup\<close>: what becomes of its promise, what it did, and the process it leaves. Each
  \<^verbatim>\<open>await\<close> of a promise that rejects throws, and nothing in the function catches: the
  promise of \<open>cleanup\<close> rejects with that error and the rest of the body does not run.
  An \<^verbatim>\<open>await\<close> of a promise that never settles never returns: the promise of \<open>cleanup\<close>
  stays pending, and the rest of the body does not run either. The function is the run
  of \<open>cleanup\<close> on its own: no other operation changes \<^verbatim>\<open>_resource\<close> while it waits.
\<close>

definition cleanup :: "collaborators \<Rightarrow> process
    \<Rightarrow> settlement \<times> teardown_event list \<times> process" where
  "cleanup co st =
     (let t0 = [Log 149, MitmproxyManager_close]
      in case MitmproxyManager_close_promise co of
           Rejects e \<Rightarrow> (Rejects e, t0, st)
         | Stays_pending \<Rightarrow> (Stays_pending, t0, st)
         | Resolves \<Rightarrow>
             (let t1 = t0 @ [osProxy_closeProxy]
              in case osProxy_closeProxy_promise co of
                   Rejects e \<Rightarrow> (Rejects e, t1, st)
                 | Stays_pending \<Rightarrow> (Stays_pending, t1, st)
                 | Resolves \<Rightarrow>
                     (case browser (resource st) of
                        None \<Rightarrow> cleanup_servers co t1 st
                      | Some b \<Rightarrow>
                          (let t2 = t1 @ [Log 153, Browser_close b]
                           in case Browser_close_promise co of
                                Rejects e \<Rightarrow> (Rejects e, t2, st)
                              | Stays_pending \<Rightarrow> (Stays_pending, t2, st)
                              | Resolves \<Rightarrow> cleanup_servers co t2 st))))"



text \<open>
  The teardown steps in the order the specification gives them: the interception proxy,
  the system proxy, the browser if there is one, every registered file server (the
  entries of the registry from the first registered to the last).
\<close>

definition planned_steps :: "process \<Rightarrow> teardown_event list" where
  "planned_steps st =
     [MitmproxyManager_close, osProxy_closeProxy]
     @ (case browser (resource st) of None \<Rightarrow> [] | Some b \<Rightarrow> [Browser_close b])
     @ map (\<lambda>entry. Server_close (snd entry)) (fileServer (resource st))"

fun step_settlement :: "collaborators \<Rightarrow> teardown_event \<Rightarrow> settlement" where
  "step_settlement co MitmproxyManager_close = MitmproxyManager_close_promise co"
| "step_settlement co osProxy_closeProxy = osProxy_closeProxy_promise co"
| "step_settlement co (Browser_close b) = Browser_close_promise co"
| "step_settlement co (Server_close s) =
     (if Server_close_calls_back co s then Resolves else Stays_pending)"
| "step_settlement co (Log n) = Resolves"

text \<open>
  Running a list of steps one after the other, each awaited, and stopping at the first
  whose promise does not resolve: what becomes of the whole, and the steps that were
  started.
\<close>

fun run_steps :: "collaborators \<Rightarrow> teardown_event list \<Rightarrow> settlement \<times> teardown_event list" where
  "run_steps co [] = (Resolves, [])"
| "run_steps co (s # ss) =
     (case step_settlement co s of
        Resolves \<Rightarrow> (case run_steps co ss of (r, later) \<Rightarrow> (r, s # later))
      | Rejects e \<Rightarrow> (Rejects e, [s])
      | Stays_pending \<Rightarrow> (Stays_pending, [s]))"

fun is_step :: "teardown_event \<Rightarrow> bool" where
  "is_step (Log n) = False"
| "is_step e = True"

definition steps_of :: "teardown_event list \<Rightarrow> teardown_event list" where
  "steps_of trace = filter is_step trace"

subsection \<open>\<^verbatim>\<open>node:path\<close> (POSIX)\<close>

text \<open>The segments of a path between its \<^verbatim>\<open>/\<close>, and back.\<close>

fun split_slash :: "string \<Rightarrow> string list" where
  "split_slash [] = [[]]"
| "split_slash (c # cs) =
     (if c = CHR ''/'' then [] # split_slash cs
      else (case split_slash cs of
              [] \<Rightarrow> [[c]]
            | s # ss \<Rightarrow> (c # s) # ss))"

fun join_slash :: "string list \<Rightarrow> string" where
  "join_slash [] = []"
| "join_slash [s] = s"
| "join_slash (s # t # ss) = s @ CHR ''/'' # join_slash (t # ss)"

text \<open>
  \<^verbatim>\<open>normalizeString\<close>: empty segments and \<^verbatim>\<open>.\<close> are dropped; \<^verbatim>\<open>..\<close> removes the segment
  before it, unless there is none or it is \<^verbatim>\<open>..\<close> itself: then it is kept when the path
  is relative (\<open>allowAboveRoot\<close>) and dropped when it is absolute.
\<close>

fun normalize_segments :: "bool \<Rightarrow> string list \<Rightarrow> string list \<Rightarrow> string list" where
  "normalize_segments allowAboveRoot res [] = res"
| "normalize_segments allowAboveRoot res (seg # segs) =
     (if seg = [] \<or> seg = ''.'' then normalize_segments allowAboveRoot res segs
      else if seg = ''..'' then
        (if res \<noteq> [] \<and> last res \<noteq> ''..''
         then normalize_segments allowAboveRoot (butlast res) segs
         else if allowAboveRoot then normalize_segments allowAboveRoot (res @ [''..'']) segs
         else normalize_segments allowAboveRoot res segs)
      else normalize_segments allowAboveRoot (res @ [seg]) segs)"

definition normalizeString :: "string \<Rightarrow> bool \<Rightarrow> string" where
  "normalizeString path allowAboveRoot =
     join_slash (normalize_segments allowAboveRoot [] (split_slash path))"

definition path_normalize :: "string \<Rightarrow> string" where
  "path_normalize path =
     (if path = [] then ''.''
      else
        (let isAbsolute = (hd path = CHR ''/'');
             trailingSeparator = (last path = CHR ''/'');
             p = normalizeString path (\<not> isAbsolute)
         in if p = [] then (if isAbsolute then ''/'' else if trailingSeparator then ''./'' else ''.'')
            else
              (let p' = (if trailingSeparator then p @ ''/'' else p)
               in if isAbsolute then CHR ''/'' # p' else p')))"

text \<open>\<^verbatim>\<open>path.join\<close>: the arguments that are not empty, joined with \<^verbatim>\<open>/\<close> and normalized.\<close>

definition path_join :: "string list \<Rightarrow> string" where
  "path_join args =
     (case filter (\<lambda>arg. arg \<noteq> []) args of
        [] \<Rightarrow> ''.''
      | arg # rest \<Rightarrow> path_normalize (join_slash (arg # rest)))"

text \<open>
  \<^verbatim>\<open>path.extname\<close>: in the last segment that is not empty, the part from the last \<^verbatim>\<open>.\<close> on;
  empty when there is no \<^verbatim>\<open>.\<close>, when the only \<^verbatim>\<open>.\<close> is the first character, and for the
  segment \<^verbatim>\<open>..\<close>.
\<close>

definition last_index_of :: "char \<Rightarrow> string \<Rightarrow> nat option" where
  "last_index_of c s =
     (if c \<in> set s then Some (length s - 1 - length (takeWhile (\<lambda>x. x \<noteq> c) (rev s))) else None)"

definition path_extname :: "string \<Rightarrow> string" where
  "path_extname path =
     (case filter (\<lambda>s. s \<noteq> []) (split_slash path) of
        [] \<Rightarrow> []
      | s # ss \<Rightarrow>
          (let base = last (s # ss)
           in case last_index_of (CHR ''.'') base of
                None \<Rightarrow> []
              | Some i \<Rightarrow> if i = 0 \<or> base = ''..'' then [] else drop i base))"

subsection \<open>\<^verbatim>\<open>decodeURIComponent\<close> and \<^verbatim>\<open>toLowerCase\<close>\<close>

definition hex_value :: "char \<Rightarrow> nat option" where
  "hex_value c =
     (let n = (of_char c :: nat)
      in if 48 \<le> n \<and> n \<le> 57 then Some (n - 48)
         else if 65 \<le> n \<and> n \<le> 70 then Some (n - 55)
         else if 97 \<le> n \<and> n \<le> 102 then Some (n - 87)
         else None)"

definition octet :: "char \<Rightarrow> char \<Rightarrow> nat option" where
  "octet a b =
     (case hex_value a of
        None \<Rightarrow> None
      | Some x \<Rightarrow> (case hex_value b of None \<Rightarrow> None | Some y \<Rightarrow> Some (16 * x + y)))"

text \<open>The number of leading one bits of an octet (5 stands for five or more).\<close>

definition leading_ones :: "nat \<Rightarrow> nat" where
  "leading_ones B =
     (if B < 128 then 0 else if B < 192 then 1 else if B < 224 then 2
      else if B < 240 then 3 else if B < 248 then 4 else 5)"

definition continuation :: "nat \<Rightarrow> bool" where
  "continuation B = (128 \<le> B \<and> B \<le> 191)"

text \<open>The octets of one code point in well-formed UTF-8 (two to four octets).\<close>

definition valid_utf8 :: "nat list \<Rightarrow> bool" where
  "valid_utf8 octets =
     (case octets of
        [a, b] \<Rightarrow> 194 \<le> a \<and> a \<le> 223 \<and> continuation b
      | [a, b, c] \<Rightarrow>
          continuation c
          \<and> ((a = 224 \<and> 160 \<le> b \<and> b \<le> 191) \<or> (225 \<le> a \<and> a \<le> 236 \<and> continuation b)
             \<or> (a = 237 \<and> 128 \<le> b \<and> b \<le> 159) \<or> (238 \<le> a \<and> a \<le> 239 \<and> continuation b))
      | [a, b, c, d] \<Rightarrow>
          continuation c \<and> continuation d
          \<and> ((a = 240 \<and> 144 \<le> b \<and> b \<le> 191) \<or> (241 \<le> a \<and> a \<le> 243 \<and> continuation b)
             \<or> (a = 244 \<and> 128 \<le> b \<and> b \<le> 143))
      | _ \<Rightarrow> False)"

definition prepend :: "string \<Rightarrow> js_error + string \<Rightarrow> js_error + string" where
  "prepend s r = (case r of Inl e \<Rightarrow> Inl e | Inr t \<Rightarrow> Inr (s @ t))"

text \<open>
  \<open>decode_from octets need s\<close>: the decoding of \<open>s\<close> when the octets \<open>octets\<close> of a code
  point have been read and \<open>need\<close> more escapes must follow. An escape that is cut short
  or not hexadecimal, a missing continuation and octets that are not the UTF-8 of a code
  point throw a URIError; a character that is not \<^verbatim>\<open>%\<close> stands for itself.
\<close>

fun decode_from :: "nat list \<Rightarrow> nat \<Rightarrow> string \<Rightarrow> js_error + string" where
  "decode_from octets need [] = (if need = 0 then Inr [] else Inl URIError)"
| "decode_from octets need (c # cs) =
     (if c \<noteq> CHR ''%'' then
        (if need = 0 then prepend [c] (decode_from [] 0 cs) else Inl URIError)
      else
        (case cs of
           a # b # rest \<Rightarrow>
             (case octet a b of
                None \<Rightarrow> Inl URIError
              | Some B \<Rightarrow>
                  if need = 0 then
                    (if B < 128 then prepend [char_of B] (decode_from [] 0 rest)
                     else if leading_ones B = 1 \<or> 4 < leading_ones B then Inl URIError
                     else decode_from [B] (leading_ones B - 1) rest)
                  else if need = 1 then
                    (if valid_utf8 (octets @ [B])
                     then prepend (map char_of (octets @ [B])) (decode_from [] 0 rest)
                     else Inl URIError)
                  else decode_from (octets @ [B]) (need - 1) rest)
         | _ \<Rightarrow> Inl URIError))"

definition decodeURIComponent :: "string \<Rightarrow> js_error + string" where
  "decodeURIComponent s = decode_from [] 0 s"

text \<open>\<^verbatim>\<open>toLowerCase\<close> on the letters A-Z (no other character becomes a key of the table below).\<close>

definition toLowerCase :: "string \<Rightarrow> string" where
  "toLowerCase s =
     map (\<lambda>c. if 65 \<le> (of_char c :: nat) \<and> (of_char c :: nat) \<le> 90
               then char_of ((of_char c :: nat) + 32) else c) s"

subsection \<open>The request handler of \<^verbatim>\<open>startFileServer\<close> (lines 53-108)\<close>

text \<open>
  The file system as the handler sees it, on paths without a NUL character:
  \<^verbatim>\<open>fs.existsSync\<close>, \<^verbatim>\<open>fs.statSync(p).isDirectory()\<close> (called for a path that exists), and
  \<^verbatim>\<open>fs.readFile\<close>, which gives the \<^verbatim>\<open>code\<close> of an error or the content. On a path with a
  NUL character \<^verbatim>\<open>fs.existsSync\<close> is false and \<^verbatim>\<open>fs.readFile\<close> throws a TypeError at the
  call, before any access to the file system.
\<close>

record filesystem =
  existsSync :: "string \<Rightarrow> bool"
  isDirectory :: "string \<Rightarrow> bool"
  readFile :: "string \<Rightarrow> string + string"

datatype fs_access = Exists string | Stat string | Read string

record response =
  statusCode :: nat
  contentType :: "string option"
  body :: string

text \<open>Lines 71-86.\<close>

definition mimeTypes :: "(string \<times> string) list" where
  "mimeTypes =
     [(''.html'', ''text/html''), (''.js'', ''text/javascript''), (''.css'', ''text/css''),
      (''.json'', ''application/json''), (''.png'', ''image/png''), (''.jpg'', ''image/jpg''),
      (''.gif'', ''image/gif''), (''.wav'', ''audio/wav''), (''.mp4'', ''video/mp4''),
      (''.woff'', ''application/font-woff''), (''.ttf'', ''application/font-ttf''),
      (''.eot'', ''application/vnd.ms-fontobject''), (''.otf'', ''application/font-otf''),
      (''.svg'', ''application/image/svg+xml'')]"

text \<open>Lines 91-107: the response to the outcome of \<^verbatim>\<open>fs.readFile\<close>.\<close>

definition respond :: "string \<Rightarrow> string + string \<Rightarrow> response" where
  "respond type outcome =
     (case outcome of
        Inl code \<Rightarrow>
          if code = ''ENOENT''
          then \<lparr>statusCode = 404, contentType = Some ''text/html'', body = ''<h1>404 Not Found</h1>''\<rparr>
          else \<lparr>statusCode = 500, contentType = None,
                 body = ''Sorry, there was an error: '' @ code @ '' ..'' @ [CHR 0x0A]\<rparr>
      | Inr content \<Rightarrow> \<lparr>statusCode = 200, contentType = Some type, body = content\<rparr>)"

text \<open>
  The handler for a server of \<open>rootDirectory\<close>, on a request with the path \<^verbatim>\<open>req.url\<close>:
  the response and the accesses to the file system, in order; \<open>Inl\<close> when the handler
  throws (\<^verbatim>\<open>decodeURIComponent\<close>, line 62, and \<^verbatim>\<open>fs.readFile\<close>, line 91, on a path with a
  NUL character, which \<^verbatim>\<open>%00\<close> decodes to).
\<close>

definition request_handler ::
    "filesystem \<Rightarrow> string \<Rightarrow> string \<Rightarrow> js_error + response \<times> fs_access list" where
  "request_handler fs rootDirectory req_url =
     (let safePath = path_normalize (path_join [rootDirectory, req_url])
      in if \<not> startsWith safePath rootDirectory
         then Inr (\<lparr>statusCode = 403, contentType = Some ''text/html'',
                     body = ''<h1>403 Forbidden</h1>''\<rparr>, [])
         else
           (case decodeURIComponent safePath of
              Inl e \<Rightarrow> Inl e
            | Inr decoded \<Rightarrow>
                (let has_nul = (CHR 0x00 \<in> set decoded);
                     found = (\<not> has_nul \<and> existsSync fs decoded);
                     is_directory = (found \<and> isDirectory fs decoded);
                     looked = (if has_nul then [] else [Exists decoded])
                              @ (if found then [Stat decoded] else []);
                     filePath = (if is_directory then path_join [decoded, ''index.html'']
                                 else decoded);
                     extname = toLowerCase (path_extname filePath);
                     type = (case map_of mimeTypes extname of
                               None \<Rightarrow> ''application/octet-stream''
                             | Some t \<Rightarrow> t)
                 in if has_nul then Inl TypeError
                    else Inr (respond type (readFile fs filePath), looked @ [Read filePath]))))"

section \<open>Sample inputs\<close>

text \<open>
  Concrete runtimes, stores, processes and a file system, on which the theorems below
  are instantiated. The runtimes know the texts they are given: every other text is not
  JSON, every other string is not a URL.
\<close>

definition sample_sessions :: "Credential list" where
  "sample_sessions =
     [\<lparr>biz = ''MzA3'', url = ''https://mp.weixin.qq.com/s?__biz=MzA3&uin=777&key=abc&pass_ticket=pt1'',
        set_cookie = ''wap_sid2=CK3e; Path=/; HttpOnly'', timestamp = 1000,
        nickname = ''first'', round_head_img = ''http://wx.qlogo.cn/a b''\<rparr>,
      \<lparr>biz = ''MzB4'', url = ''https://mp.weixin.qq.com/s?__biz=MzB4&uin=888&pass_ticket=pt2'',
        set_cookie = ''wap_sid2=ZZ9; Path=/'', timestamp = 3000,
        nickname = ''second'', round_head_img = []\<rparr>,
      \<lparr>biz = ''MzC5'', url = ''https://mp.weixin.qq.com/s?__biz=MzC5&uin=999&key=def&pass_ticket=pt3'',
        set_cookie = ''wap_sid2=QQ1; Path=/'', timestamp = 2000,
        nickname = ''third'', round_head_img = []\<rparr>,
      \<lparr>biz = ''MzD6'', url = ''https://mp.weixin.qq.com/s?__biz=MzD6&uin=555&key=ghi&pass_ticket=pt4'',
        set_cookie = ''wap_sid2=RR2; Path=/'', timestamp = 1000,
        nickname = ''fourth'', round_head_img = []\<rparr>]"

definition sample_json :: string where
  \<open>sample_json = ''[{"biz":"MzA3","url":"https://mp.weixin.qq.com/s?__biz=MzA3&uin=777&key=abc&pass_ticket=pt1","set_cookie":"wap_sid2=CK3e; Path=/; HttpOnly","timestamp":1000,"nickname":"first","round_head_img":"http://wx.qlogo.cn/a b"},{"biz":"MzB4","url":"https://mp.weixin.qq.com/s?__biz=MzB4&uin=888&pass_ticket=pt2","set_cookie":"wap_sid2=ZZ9; Path=/","timestamp":3000,"nickname":"second","round_head_img":""},{"biz":"MzC5","url":"https://mp.weixin.qq.com/s?__biz=MzC5&uin=999&key=def&pass_ticket=pt3","set_cookie":"wap_sid2=QQ1; Path=/","timestamp":2000,"nickname":"third","round_head_img":""},{"biz":"MzD6","url":"https://mp.weixin.qq.com/s?__biz=MzD6&uin=555&key=ghi&pass_ticket=pt4","set_cookie":"wap_sid2=RR2; Path=/","timestamp":1000,"nickname":"fourth","round_head_img":""}]''\<close>

definition bad_url_sessions :: "Credential list" where
  "bad_url_sessions =
     [\<lparr>biz = ''MzA3'', url = ''not a url'', set_cookie = ''wap_sid2=CK3e;'', timestamp = 1000,
        nickname = ''first'', round_head_img = []\<rparr>]"

definition bad_url_json :: string where
  \<open>bad_url_json = ''[{"biz":"MzA3","url":"not a url","set_cookie":"wap_sid2=CK3e;","timestamp":1000,"nickname":"first","round_head_img":""}]''\<close>

text \<open>
  A session with all five fields whose avatar is the lone surrogate U+D800 (in the JSON
  text, its six-character escape: a backslash, \<^verbatim>\<open>u\<close>, and \<^verbatim>\<open>d800\<close>).
\<close>

definition surrogate_sessions :: "Credential list" where
  "surrogate_sessions =
     [\<lparr>biz = ''MzA3'', url = ''https://mp.weixin.qq.com/s?__biz=MzA3&uin=777&key=abc&pass_ticket=pt1'',
        set_cookie = ''wap_sid2=CK3e;'', timestamp = 1000,
        nickname = ''first'', round_head_img = [CHR 0xED, CHR 0xA0, CHR 0x80]\<rparr>]"

definition surrogate_json :: string where
  \<open>surrogate_json = ''[{"biz":"MzA3","url":"https://mp.weixin.qq.com/s?__biz=MzA3&uin=777&key=abc&pass_ticket=pt1","set_cookie":"wap_sid2=CK3e;","timestamp":1000,"nickname":"first","round_head_img":"'' @ [CHR 0x5C] @ ''ud800"}]''\<close>

definition sample_runtime :: runtime where
  "sample_runtime = \<lparr>
     JSON_parse = map_of [(sample_json, sample_sessions), (bad_url_json, bad_url_sessions),
       (surrogate_json, surrogate_sessions)],
     JSON_stringify = (\<lambda>l. if l = sample_sessions then sample_json else bad_url_json),
     URL_new = map_of
       [(''https://mp.weixin.qq.com/s?__biz=MzA3&uin=777&key=abc&pass_ticket=pt1'',
           [(''__biz'', ''MzA3''), (''uin'', ''777''), (''key'', ''abc''), (''pass_ticket'', ''pt1'')]),
        (''https://mp.weixin.qq.com/s?__biz=MzB4&uin=888&pass_ticket=pt2'',
           [(''__biz'', ''MzB4''), (''uin'', ''888''), (''pass_ticket'', ''pt2'')]),
        (''https://mp.weixin.qq.com/s?__biz=MzC5&uin=999&key=def&pass_ticket=pt3'',
           [(''__biz'', ''MzC5''), (''uin'', ''999''), (''key'', ''def''), (''pass_ticket'', ''pt3'')]),
        (''https://mp.weixin.qq.com/s?__biz=MzD6&uin=555&key=ghi&pass_ticket=pt4'',
           [(''__biz'', ''MzD6''), (''uin'', ''555''), (''key'', ''ghi''), (''pass_ticket'', ''pt4'')])],
     Date_now = (\<lambda>k. 1500999 + int k),
     dayjs_format = (\<lambda>t. ''1970-01-01 00:00:0'' @ [''0123456789'' ! nat (t div 1000 mod 10)])\<rparr>"

text \<open>A store of two entries, as a text with spaces and as \<^verbatim>\<open>JSON.stringify\<close> writes it.\<close>

definition entry_a :: Credential where
  "entry_a = \<lparr>biz = ''a'', url = ''https://mp.weixin.qq.com/s?__biz=a'', set_cookie = ''wap_sid2=x;'',
     timestamp = 1, nickname = ''A'', round_head_img = []\<rparr>"

definition entry_b :: Credential where
  "entry_b = \<lparr>biz = ''b'', url = ''https://mp.weixin.qq.com/s?__biz=b'', set_cookie = ''wap_sid2=y;'',
     timestamp = 2, nickname = ''B'', round_head_img = []\<rparr>"

definition store_spaced :: string where
  \<open>store_spaced = ''[ {"biz": "a", "url": "https://mp.weixin.qq.com/s?__biz=a", "set_cookie": "wap_sid2=x;", "timestamp": 1, "nickname": "A", "round_head_img": ""}, {"biz": "b", "url": "https://mp.weixin.qq.com/s?__biz=b", "set_cookie": "wap_sid2=y;", "timestamp": 2, "nickname": "B", "round_head_img": ""} ]''\<close>

definition store_ab :: string where
  \<open>store_ab = ''[{"biz":"a","url":"https://mp.weixin.qq.com/s?__biz=a","set_cookie":"wap_sid2=x;","timestamp":1,"nickname":"A","round_head_img":""},{"biz":"b","url":"https://mp.weixin.qq.com/s?__biz=b","set_cookie":"wap_sid2=y;","timestamp":2,"nickname":"B","round_head_img":""}]''\<close>

definition store_b :: string where
  \<open>store_b = ''[{"biz":"b","url":"https://mp.weixin.qq.com/s?__biz=b","set_cookie":"wap_sid2=y;","timestamp":2,"nickname":"B","round_head_img":""}]''\<close>

definition store_runtime :: runtime where
  "store_runtime = \<lparr>
     JSON_parse = map_of
       [(store_spaced, [entry_a, entry_b]), (store_ab, [entry_a, entry_b]), (store_b, [entry_b]),
        (''[]'', [])],
     JSON_stringify = (\<lambda>l. if l = [entry_a, entry_b] then store_ab
                           else if l = [entry_b] then store_b else ''[]''),
     URL_new = (\<lambda>u. None),
     Date_now = (\<lambda>k. 0),
     dayjs_format = (\<lambda>t. [])\<rparr>"

text \<open>A disk with the store at \<^verbatim>\<open>/data/credentials.json\<close>, on which nothing fails.\<close>

definition store_disk :: "string \<Rightarrow> disk" where
  "store_disk content =
     \<lparr>files = [''/data/credentials.json'' \<mapsto> content], read_error = (\<lambda>p. None),
      write_error = (\<lambda>p. None), events = []\<rparr>"

text \<open>A process with a browser and two file servers, and collaborators that may fail.\<close>

definition serving_process :: process where
  "serving_process =
     \<lparr>resource = \<lparr>fileServer = [(''/srv/www'', 0), (''/srv/docs'', 1)], browser = Some 7\<rparr>,
      servers = [0 \<mapsto> \<lparr>port = 49152, listening = True\<rparr>, 1 \<mapsto> \<lparr>port = 49153, listening = True\<rparr>],
      created = 2, pending = []\<rparr>"

definition all_resolve :: collaborators where
  "all_resolve = \<lparr>MitmproxyManager_close_promise = Resolves, osProxy_closeProxy_promise = Resolves,
     Browser_close_promise = Resolves, Server_close_calls_back = (\<lambda>s. True)\<rparr>"

definition closeProxy_rejects :: collaborators where
  "closeProxy_rejects = \<lparr>MitmproxyManager_close_promise = Resolves,
     osProxy_closeProxy_promise = Rejects (Error ''closeProxy failed''),
     Browser_close_promise = Resolves, Server_close_calls_back = (\<lambda>s. True)\<rparr>"

text \<open>A connection to the first file server stays open: its \<^verbatim>\<open>close\<close> never calls back.\<close>

definition connection_stays_open :: collaborators where
  "connection_stays_open = \<lparr>MitmproxyManager_close_promise = Resolves,
     osProxy_closeProxy_promise = Resolves, Browser_close_promise = Resolves,
     Server_close_calls_back = (\<lambda>s. s \<noteq> 0)\<rparr>"

definition ports_from_49152 :: "server_ref \<Rightarrow> js_error + nat" where
  "ports_from_49152 n = Inr (49152 + n)"


text \<open>
  A file system with the served directory \<^verbatim>\<open>/srv/www\<close>, a file \<^verbatim>\<open>/srv/secret.txt\<close> beside
  it and a directory \<^verbatim>\<open>/srv/www-private\<close> whose name starts like the root. It has no
  symbolic links, so a path names what its normal form, without a slash at its end,
  names.
\<close>

definition canonical :: "string \<Rightarrow> string" where
  "canonical p =
     (let q = path_normalize p
      in if 1 < length q \<and> last q = CHR ''/'' then butlast q else q)"

definition srv_directories :: "string list" where
  "srv_directories = [''/'', ''/srv'', ''/srv/www'', ''/srv/www/css'', ''/srv/www-private'']"

definition srv_files :: "(string \<times> string) list" where
  "srv_files =
     [(''/srv/www/index.html'', ''<h1>articles</h1>''),
      (''/srv/www/css/site.css'', ''body {}''),
      (''/srv/secret.txt'', ''TOP SECRET''),
      (''/srv/www-private/key.pem'', ''PRIVATE KEY'')]"

definition srv_fs :: filesystem where
  "srv_fs = \<lparr>
     existsSync = (\<lambda>p. canonical p \<in> set srv_directories
                      \<or> canonical p \<in> set (map fst srv_files)),
     isDirectory = (\<lambda>p. canonical p \<in> set srv_directories),
     readFile = (\<lambda>p. case map_of srv_files (canonical p) of
                        Some content \<Rightarrow> Inr content
                      | None \<Rightarrow> if canonical p \<in> set srv_directories then Inl ''EISDIR''
                                else Inl ''ENOENT'')\<rparr>"

section \<open>Properties of \<^verbatim>\<open>parseCredentialData\<close>\<close>

lemma Array_sort_sort_key:
  "Array_sort by_timestamp_desc xs = sort_key (\<lambda>c. - timestamp c) xs"
proof -
  have "insert_by by_timestamp_desc x ys = insort_key (\<lambda>c. - timestamp c) x ys" for x ys
    by (induction ys) (auto simp: by_timestamp_desc_def)
  then have "insert_by by_timestamp_desc = insort_key (\<lambda>c. - timestamp c)"
    by (intro ext)
  then show ?thesis
    by (simp add: Array_sort_def sort_key_def)
qed

subsection \<open>What the pattern matches\<close>

text \<open>
  The matcher finds a token exactly when the header has one: \<^verbatim>\<open>wap_sid2=\<close>, a value that is
  not empty and has no line terminator, and \<^verbatim>\<open>;\<close>. The value it returns is the one of the
  leftmost such token, up to the first \<^verbatim>\<open>;\<close> after its first character.
\<close>

lemma lazy_until_semicolon_sound:
  "lazy_until_semicolon acc t = Some g \<Longrightarrow>
   \<exists>u post. g = acc @ u \<and> t = u @ CHR '';'' # post \<and> CHR '';'' \<notin> set u
     \<and> no_line_terminator u (CHR '';'' # post)"
proof (induction acc t rule: lazy_until_semicolon.induct)
  case (1 acc)
  then show ?case by simp
next
  case (2 acc c cs)
  show ?case
  proof (cases "c = CHR '';''")
    case True
    with 2 show ?thesis
      by (auto simp: no_line_terminator_def)
  next
    case False
    with "2.prems" have nt: "\<not> line_terminator_at (c # cs)"
      and rec: "lazy_until_semicolon (acc @ [c]) cs = Some g"
      by (auto split: if_splits)
    from "2.IH" [OF False nt rec] obtain u post where
      u: "g = (acc @ [c]) @ u" "cs = u @ CHR '';'' # post" "CHR '';'' \<notin> set u"
        "no_line_terminator u (CHR '';'' # post)"
      by blast
    have "no_line_terminator (c # u) (CHR '';'' # post)"
      unfolding no_line_terminator_def
    proof (intro allI impI)
      fix i assume "i < length (c # u)"
      then show "\<not> line_terminator_at (drop i ((c # u) @ CHR '';'' # post))"
        using nt u(2,4) by (cases i) (auto simp: no_line_terminator_def)
    qed
    with u False show ?thesis
      by (intro exI [of _ "c # u"] exI [of _ post]) simp
  qed
qed

lemma lazy_until_semicolon_complete:
  "no_line_terminator u (CHR '';'' # post) \<Longrightarrow>
   \<exists>g. lazy_until_semicolon acc (u @ CHR '';'' # post) = Some g"
proof (induction u arbitrary: acc)
  case Nil
  then show ?case by simp
next
  case (Cons c u)
  from Cons.prems have nt: "\<not> line_terminator_at (c # u @ CHR '';'' # post)"
    by (auto simp: no_line_terminator_def)
  from Cons.prems have "no_line_terminator u (CHR '';'' # post)"
    unfolding no_line_terminator_def by (metis Suc_less_eq append_Cons drop_Suc_Cons length_Cons)
  from Cons.IH [OF this] nt show ?case
    by simp
qed

lemma startsWith_split: "startsWith s p \<Longrightarrow> s = p @ drop (length p) s"
  by (metis startsWith_def append_take_drop_id)

lemma match_here_sound:
  assumes "match_here s = Some g"
  shows "\<exists>post. s = ''wap_sid2='' @ g @ CHR '';'' # post \<and> g \<noteq> []
     \<and> no_line_terminator g (CHR '';'' # post)"
proof -
  from assms have sw: "startsWith s ''wap_sid2=''"
    by (auto simp: match_here_def split: if_splits)
  have len: "length ''wap_sid2='' = 9" by simp
  have pre: "s = ''wap_sid2='' @ drop 9 s"
    using startsWith_split [OF sw] unfolding len .
  from assms obtain c cs where cs: "drop 9 s = c # cs" "\<not> line_terminator_at (c # cs)"
      "lazy_until_semicolon [c] cs = Some g"
    by (auto simp: match_here_def split: if_splits list.splits)
  from lazy_until_semicolon_sound [OF cs(3)] obtain u post where
    u: "g = [c] @ u" "cs = u @ CHR '';'' # post" "no_line_terminator u (CHR '';'' # post)"
    by blast
  have "no_line_terminator g (CHR '';'' # post)"
    unfolding no_line_terminator_def
  proof (intro allI impI)
    fix i assume "i < length g"
    then show "\<not> line_terminator_at (drop i (g @ CHR '';'' # post))"
      using cs(2) u by (cases i) (auto simp: no_line_terminator_def)
  qed
  moreover have "s = ''wap_sid2='' @ g @ CHR '';'' # post"
    using pre cs(1) u by simp
  ultimately show ?thesis
    using u(1) by blast
qed

lemma match_here_complete:
  assumes "v \<noteq> []" and "no_line_terminator v (CHR '';'' # post)"
  shows "\<exists>g. match_here (''wap_sid2='' @ v @ CHR '';'' # post) = Some g"
proof -
  from assms(1) obtain c u where v: "v = c # u" by (cases v) auto
  from assms(2) have nt: "\<not> line_terminator_at (c # u @ CHR '';'' # post)"
    by (auto simp: no_line_terminator_def v)
  from assms(2) have "no_line_terminator u (CHR '';'' # post)"
    unfolding no_line_terminator_def v by (metis Suc_less_eq append_Cons drop_Suc_Cons length_Cons)
  from lazy_until_semicolon_complete [OF this, of "[c]"] nt show ?thesis
    by (simp add: match_here_def startsWith_def v)
qed

lemma match_wap_sid2_sound:
  "match_wap_sid2 s = Some g \<Longrightarrow>
   \<exists>pre post. s = pre @ ''wap_sid2='' @ g @ CHR '';'' # post \<and> g \<noteq> []
     \<and> no_line_terminator g (CHR '';'' # post)"
proof (induction s)
  case Nil
  then show ?case by simp
next
  case (Cons c cs)
  show ?case
  proof (cases "match_here (c # cs)")
    case (Some h)
    with Cons.prems have "h = g" by simp
    with Some match_here_sound [of "c # cs" g] show ?thesis
      by (metis append_Nil)
  next
    case None
    with Cons.prems have "match_wap_sid2 cs = Some g" by simp
    from Cons.IH [OF this] obtain pre post where
      "cs = pre @ ''wap_sid2='' @ g @ CHR '';'' # post" "g \<noteq> []"
      "no_line_terminator g (CHR '';'' # post)"
      by blast
    then show ?thesis
      by (intro exI [of _ "c # pre"] exI [of _ post]) simp
  qed
qed

lemma match_wap_sid2_complete:
  assumes "match_here t = Some g"
  shows "\<exists>h. match_wap_sid2 (pre @ t) = Some h"
proof (induction pre)
  case Nil
  from assms obtain c cs where "t = c # cs"
    by (cases t) (auto simp: match_here_def startsWith_def)
  with assms show ?case by simp
next
  case (Cons c pre)
  then show ?case
    by (cases "match_here (c # pre @ t)") auto
qed

lemma match_wap_sid2_iff:
  "(match_wap_sid2 s \<noteq> None) =
   (\<exists>pre v post. s = pre @ ''wap_sid2='' @ v @ CHR '';'' # post \<and> v \<noteq> []
      \<and> no_line_terminator v (CHR '';'' # post))"
proof
  assume "match_wap_sid2 s \<noteq> None"
  then obtain g where "match_wap_sid2 s = Some g" by auto
  from match_wap_sid2_sound [OF this] show "\<exists>pre v post. s = pre @ ''wap_sid2='' @ v @ CHR '';'' # post
      \<and> v \<noteq> [] \<and> no_line_terminator v (CHR '';'' # post)"
    by blast
next
  assume "\<exists>pre v post. s = pre @ ''wap_sid2='' @ v @ CHR '';'' # post \<and> v \<noteq> []
      \<and> no_line_terminator v (CHR '';'' # post)"
  then obtain pre v post where s: "s = pre @ ''wap_sid2='' @ v @ CHR '';'' # post"
    and v: "v \<noteq> []" "no_line_terminator v (CHR '';'' # post)"
    by blast
  from match_here_complete [OF v] obtain g where
    "match_here (''wap_sid2='' @ v @ CHR '';'' # post) = Some g" by blast
  from match_wap_sid2_complete [OF this, of pre] show "match_wap_sid2 s \<noteq> None"
    by (auto simp: s)
qed

lemma has_cookie_token_iff: "has_cookie_token header = (match_wap_sid2 header \<noteq> None)"
  unfolding has_cookie_token_def by (rule match_wap_sid2_iff [symmetric])

subsection \<open>The loop\<close>

lemma lazy_until_semicolon_nonempty:
  "lazy_until_semicolon acc s = Some g \<Longrightarrow> acc \<noteq> [] \<Longrightarrow> g \<noteq> []"
  by (induction acc s rule: lazy_until_semicolon.induct) (auto split: if_splits)

lemma match_here_nonempty: "match_here s = Some g \<Longrightarrow> g \<noteq> []"
  by (auto simp: match_here_def split: if_splits list.splits
           dest: lazy_until_semicolon_nonempty)

lemma match_wap_sid2_nonempty: "match_wap_sid2 s = Some g \<Longrightarrow> g \<noteq> []"
  by (induction s) (auto split: option.splits dest: match_here_nonempty)

lemma truthy_cookie_token:
  "truthy (cookie_token item) = has_cookie_token (set_cookie item)"
  by (auto simp: cookie_token_def has_cookie_token_iff split: option.splits
           dest: match_wap_sid2_nonempty)

lemma truthy_iff: "truthy (searchParams_get ps name) = (\<exists>v. map_of ps name = Some v \<and> v \<noteq> [])"
  by (cases "map_of ps name") (simp_all add: searchParams_get_def)

text \<open>The five fields, as the test of line 264 reads them.\<close>

lemma has_all_five_iff:
  "has_all_five rt item =
     (case URL_new rt (url item) of
        None \<Rightarrow> False
      | Some ps \<Rightarrow>
          truthy (searchParams_get ps ''__biz'') \<and> truthy (searchParams_get ps ''uin'')
          \<and> truthy (searchParams_get ps ''key'') \<and> truthy (searchParams_get ps ''pass_ticket'')
          \<and> truthy (cookie_token item))"
  by (simp add: has_all_five_def truthy_iff truthy_cookie_token split: option.splits)

lemma lone_surrogate_in_Cons:
  "lone_surrogate_in (c # d # cs) =
     ((c = CHR 0xED \<and> 0xA0 \<le> (of_char d :: nat) \<and> (of_char d :: nat) \<le> 0xBF)
      \<or> lone_surrogate_in (d # cs))"
proof
  assume "lone_surrogate_in (c # d # cs)"
  then obtain i where i: "Suc i < length (c # d # cs)" "(c # d # cs) ! i = CHR 0xED"
      "0xA0 \<le> (of_char ((c # d # cs) ! Suc i) :: nat)" "(of_char ((c # d # cs) ! Suc i) :: nat) \<le> 0xBF"
    unfolding lone_surrogate_in_def by blast
  show "(c = CHR 0xED \<and> 0xA0 \<le> (of_char d :: nat) \<and> (of_char d :: nat) \<le> 0xBF)
      \<or> lone_surrogate_in (d # cs)"
  proof (cases i)
    case 0
    with i show ?thesis by simp
  next
    case (Suc j)
    with i have "Suc j < length (d # cs) \<and> (d # cs) ! j = CHR 0xED
        \<and> 0xA0 \<le> (of_char ((d # cs) ! Suc j) :: nat) \<and> (of_char ((d # cs) ! Suc j) :: nat) \<le> 0xBF"
      by simp
    then show ?thesis
      unfolding lone_surrogate_in_def by blast
  qed
next
  assume "(c = CHR 0xED \<and> 0xA0 \<le> (of_char d :: nat) \<and> (of_char d :: nat) \<le> 0xBF)
      \<or> lone_surrogate_in (d # cs)"
  then show "lone_surrogate_in (c # d # cs)"
  proof
    assume "c = CHR 0xED \<and> 0xA0 \<le> (of_char d :: nat) \<and> (of_char d :: nat) \<le> 0xBF"
    then show ?thesis
      unfolding lone_surrogate_in_def by (intro exI [of _ 0]) simp
  next
    assume "lone_surrogate_in (d # cs)"
    then obtain j where "Suc j < length (d # cs) \<and> (d # cs) ! j = CHR 0xED
        \<and> 0xA0 \<le> (of_char ((d # cs) ! Suc j) :: nat) \<and> (of_char ((d # cs) ! Suc j) :: nat) \<le> 0xBF"
      unfolding lone_surrogate_in_def by blast
    then show ?thesis
      unfolding lone_surrogate_in_def by (intro exI [of _ "Suc j"]) simp
  qed
qed

lemma has_lone_surrogate_iff: "has_lone_surrogate s = lone_surrogate_in s"
proof (induction s rule: has_lone_surrogate.induct)
  case 1
  show ?case by (simp add: lone_surrogate_in_def)
next
  case (2 c)
  show ?case by (simp add: lone_surrogate_in_def)
next
  case (3 c d cs)
  then show ?case by (simp add: lone_surrogate_in_Cons)
qed

lemma lone_surrogate_in_scan: "lone_surrogate_in s = has_lone_surrogate s"
  by (rule has_lone_surrogate_iff [symmetric])

lemma proxied_head_img_surrogate:
  "lone_surrogate_in img \<Longrightarrow> proxied_head_img img = Inl URIError"
  by (cases img) (auto simp: proxied_head_img_def encodeURIComponent_def lone_surrogate_in_scan)

lemma proxied_head_img_well_formed:
  "\<not> lone_surrogate_in img \<Longrightarrow> \<exists>proxied. proxied_head_img img = Inr proxied"
  by (simp add: proxied_head_img_def encodeURIComponent_def lone_surrogate_in_scan)

lemma parse_item_Inl:
  "(parse_item rt k item = Inl e) = (item_error rt item = Some e)"
proof (cases "URL_new rt (url item)")
  case None
  then show ?thesis
    by (auto simp: parse_item_def item_error_def)
next
  case (Some ps)
  show ?thesis
  proof (cases "has_all_five rt item")
    case False
    with Some show ?thesis
      by (auto simp: parse_item_def item_error_def has_all_five_iff Let_def)
  next
    case True
    then have complete: "truthy (searchParams_get ps ''__biz'')" "truthy (searchParams_get ps ''uin'')"
        "truthy (searchParams_get ps ''key'')" "truthy (searchParams_get ps ''pass_ticket'')"
        "truthy (cookie_token item)"
      using Some by (simp_all add: has_all_five_iff)
    show ?thesis
    proof (cases "lone_surrogate_in (round_head_img item)")
      case True
      from proxied_head_img_surrogate [OF this] Some complete \<open>has_all_five rt item\<close> True
      show ?thesis
        by (auto simp: parse_item_def item_error_def Let_def)
    next
      case False
      from proxied_head_img_well_formed [OF this] obtain proxied where
        "proxied_head_img (round_head_img item) = Inr proxied" by blast
      with Some complete False show ?thesis
        by (simp add: parse_item_def item_error_def Let_def)
    qed
  qed
qed

lemma parse_item_None:
  "(parse_item rt k item = Inr None) = (URL_new rt (url item) \<noteq> None \<and> \<not> has_all_five rt item)"
  by (auto simp: parse_item_def has_all_five_iff Let_def split: option.splits sum.splits)

lemma parse_item_Some:
  "(\<exists>p. parse_item rt k item = Inr (Some p)) = (has_all_five rt item \<and> item_error rt item = None)"
proof (cases "parse_item rt k item")
  case (Inl e)
  then have "item_error rt item = Some e"
    by (simp add: parse_item_Inl)
  with Inl show ?thesis
    by simp
next
  case (Inr r)
  then have ok: "item_error rt item = None"
    by (metis parse_item_Inl not_Some_eq sum.distinct(1))
  then have "URL_new rt (url item) \<noteq> None"
    by (auto simp: item_error_def split: if_splits)
  with Inr ok show ?thesis
    using parse_item_None [of rt k item] by (cases r) auto
qed

lemma parse_loop_raises:
  "find (\<lambda>c. item_error rt c \<noteq> None) xs = Some c \<Longrightarrow>
   parse_loop rt xs k result = Inl (the (item_error rt c))"
proof (induction xs arbitrary: k result)
  case Nil
  then show ?case by simp
next
  case (Cons x xs)
  show ?case
  proof (cases "item_error rt x")
    case (Some e)
    with Cons.prems have "c = x" by simp
    moreover from Some have "parse_item rt k x = Inl e"
      by (simp add: parse_item_Inl)
    ultimately show ?thesis using Some by simp
  next
    case None
    with Cons.prems have rest: "find (\<lambda>c. item_error rt c \<noteq> None) xs = Some c" by simp
    from None obtain r where "parse_item rt k x = Inr r"
      by (cases "parse_item rt k x") (auto simp: parse_item_Inl)
    with Cons.IH [OF rest] show ?thesis
      by (cases r) auto
  qed
qed

lemma parse_loop_emits:
  "\<forall>c\<in>set xs. item_error rt c = None \<Longrightarrow>
   \<exists>ps. parse_loop rt xs k result = Inr (result @ ps)
      \<and> length ps = length (filter (has_all_five rt) xs)
      \<and> (\<forall>i<length ps. parse_item rt (k + i) (filter (has_all_five rt) xs ! i) = Inr (Some (ps ! i)))"
proof (induction xs arbitrary: k result)
  case Nil
  then show ?case by simp
next
  case (Cons x xs)
  then have ok: "\<forall>c\<in>set xs. item_error rt c = None" and x: "item_error rt x = None"
    by auto
  from x have u: "URL_new rt (url x) \<noteq> None"
    by (auto simp: item_error_def split: if_splits)
  show ?case
  proof (cases "has_all_five rt x")
    case False
    with u have "parse_item rt k x = Inr None" by (simp add: parse_item_None)
    with Cons.IH [OF ok, of k result] False show ?thesis by simp
  next
    case True
    with x obtain p where p: "parse_item rt k x = Inr (Some p)"
      using parse_item_Some [of rt k x] by blast
    from Cons.IH [OF ok, of "Suc k" "result @ [p]"] obtain ps where
      ps: "parse_loop rt xs (Suc k) (result @ [p]) = Inr ((result @ [p]) @ ps)"
        "length ps = length (filter (has_all_five rt) xs)"
        "\<forall>i<length ps. parse_item rt (Suc k + i) (filter (has_all_five rt) xs ! i) = Inr (Some (ps ! i))"
      by blast
    have "\<forall>i<length (p # ps). parse_item rt (k + i) (filter (has_all_five rt) (x # xs) ! i) = Inr (Some ((p # ps) ! i))"
    proof (intro allI impI)
      fix i assume "i < length (p # ps)"
      then show "parse_item rt (k + i) (filter (has_all_five rt) (x # xs) ! i) = Inr (Some ((p # ps) ! i))"
        using True p ps(3) by (cases i) auto
    qed
    with True p ps(1,2) show ?thesis
      by (intro exI [of _ "p # ps"]) simp
  qed
qed

lemma parseCredentialData_emits:
  assumes "JSON_parse rt data = Some list" and "\<forall>c\<in>set list. item_error rt c = None"
  shows "\<exists>out. parseCredentialData rt data = Inr out
      \<and> length out = length (emitted_sessions rt list)
      \<and> (\<forall>i<length out. parse_item rt i (emitted_sessions rt list ! i) = Inr (Some (out ! i)))"
proof -
  have "\<forall>c\<in>set (Array_sort by_timestamp_desc list). item_error rt c = None"
    using assms(2) by (simp add: Array_sort_sort_key)
  from parse_loop_emits [OF this, of 0 "[]"] show ?thesis
    using assms(1) by (simp add: parseCredentialData_def emitted_sessions_def)
qed

lemma parseCredentialData_raises:
  assumes "JSON_parse rt data = Some list"
    and "find (\<lambda>c. item_error rt c \<noteq> None) (Array_sort by_timestamp_desc list) = Some c"
  shows "parseCredentialData rt data = Inl (the (item_error rt c))"
  using assms parse_loop_raises [of rt "Array_sort by_timestamp_desc list" c 0 "[]"]
  by (simp add: parseCredentialData_def)

lemma parseCredentialData_Inr_no_error:
  assumes "JSON_parse rt data = Some list" and "parseCredentialData rt data = Inr out"
  shows "\<forall>c\<in>set list. item_error rt c = None"
proof (rule ccontr)
  assume "\<not> (\<forall>c\<in>set list. item_error rt c = None)"
  then have "\<exists>c\<in>set (Array_sort by_timestamp_desc list). item_error rt c \<noteq> None"
    by (simp add: Array_sort_sort_key)
  then have "find (\<lambda>c. item_error rt c \<noteq> None) (Array_sort by_timestamp_desc list) \<noteq> None"
    by (auto simp: find_None_iff)
  then obtain c where "find (\<lambda>c. item_error rt c \<noteq> None) (Array_sort by_timestamp_desc list) = Some c"
    by auto
  from parseCredentialData_raises [OF assms(1) this] assms(2) show False
    by simp
qed

lemma length_emitted_sessions:
  "length (emitted_sessions rt list) = length (filter (has_all_five rt) list)"
  by (simp add: emitted_sessions_def Array_sort_sort_key filter_sort)

lemma emitted_sessions_sorted:
  "sorted_wrt (\<lambda>a b. timestamp b \<le> timestamp a) (emitted_sessions rt list)"
proof -
  have "sorted (map (\<lambda>c. - timestamp c) (emitted_sessions rt list))"
    unfolding emitted_sessions_def Array_sort_sort_key
    by (intro sorted_filter) simp
  then show ?thesis
    by (simp add: sorted_map)
qed

lemma emitted_sessions_stable:
  "filter (\<lambda>c. timestamp c = t) (emitted_sessions rt list)
   = filter (\<lambda>c. timestamp c = t) (filter (has_all_five rt) list)"
proof -
  have "filter (\<lambda>c. - timestamp c = - t) (sort_key (\<lambda>c. - timestamp c) list)
        = filter (\<lambda>c. - timestamp c = - t) list"
    by (rule sort_key_stable)
  then have "filter (\<lambda>c. timestamp c = t) (sort_key (\<lambda>c. - timestamp c) list)
        = filter (\<lambda>c. timestamp c = t) list"
    by simp
  then have "filter (has_all_five rt) (filter (\<lambda>c. timestamp c = t) (sort_key (\<lambda>c. - timestamp c) list))
        = filter (has_all_five rt) (filter (\<lambda>c. timestamp c = t) list)"
    by simp
  then show ?thesis
    unfolding emitted_sessions_def Array_sort_sort_key filter_filter
    by (simp add: conj_commute)
qed


lemma parse_item_valid:
  "parse_item rt k item = Inr (Some p) \<Longrightarrow>
   valid p = (Date_now rt k < timestamp item + 1000 * 60 * 25)"
  by (auto simp: parse_item_def Let_def split: option.splits if_splits sum.splits)

lemma parse_item_time:
  "parse_item rt k item = Inr (Some p) \<Longrightarrow> time p = dayjs_format rt (timestamp item)"
  by (auto simp: parse_item_def Let_def split: option.splits if_splits sum.splits)

text \<open>
  A parameter that is there with an empty value counts as missing: the test of line 264
  is one of truthiness.
\<close>

lemma empty_value_is_missing:
  assumes "URL_new rt (url item) = Some ps"
    and "searchParams_get ps name = Some []"
    and "name \<in> {''__biz'', ''uin'', ''key'', ''pass_ticket''}"
  shows "\<not> has_all_five rt item" and "parse_item rt k item = Inr None"
proof -
  from assms show "\<not> has_all_five rt item"
    by (auto simp: has_all_five_def searchParams_get_def)
  with assms(1) show "parse_item rt k item = Inr None"
    by (simp add: parse_item_None)
qed

lemmas sample_simps = sample_runtime_def sample_sessions_def sample_json_def bad_url_json_def
  bad_url_sessions_def surrogate_sessions_def surrogate_json_def
  parseCredentialData_def Array_sort_def by_timestamp_desc_def parse_item_def
  searchParams_get_def cookie_token_def match_here_def startsWith_def proxied_head_img_def
  encodeURIComponent_def uri_unreserved_def percent_encode_def hex_digit_def line_terminator_at_def
  has_all_five_def has_cookie_token_iff lone_surrogate_in_scan emitted_sessions_def item_error_def

lemma sample_json_parses: "JSON_parse sample_runtime sample_json = Some sample_sessions"
  by (simp add: sample_runtime_def)

lemma sample_no_error: "\<forall>c\<in>set sample_sessions. item_error sample_runtime c = None"
  by (simp add: sample_simps)

lemma sample_complete: "length (filter (has_all_five sample_runtime) sample_sessions) = 3"
  by (simp add: sample_simps)

lemma surrogate_json_parses: "JSON_parse sample_runtime surrogate_json = Some surrogate_sessions"
  by (simp add: sample_runtime_def sample_json_def bad_url_json_def surrogate_json_def)

text \<open>
  \<^verbatim>\<open>encodeURIComponent\<close> (line 271) is outside the \<^verbatim>\<open>try\<close> too: a session with all five
  fields, a \<^verbatim>\<open>url\<close> that parses and an avatar with a lone surrogate makes the operation
  raise a URIError.
\<close>

lemma parseCredentialData_throws_on_lone_surrogate:
  "list_all (\<lambda>c. URL_new sample_runtime (url c) \<noteq> None) surrogate_sessions
   \<and> list_all (has_all_five sample_runtime) surrogate_sessions
   \<and> parseCredentialData sample_runtime surrogate_json = Inl URIError"
  by (simp add: sample_simps)

lemma sample_output:
  "parseCredentialData sample_runtime sample_json = Inr
     [\<lparr>nickname' = ''third'', round_head_img' = [], biz' = ''MzC5'', uin = ''999'', key = ''def'',
        pass_ticket = ''pt3'', wap_sid2 = ''QQ1'', time = ''1970-01-01 00:00:02'', valid = True\<rparr>,
      \<lparr>nickname' = ''first'',
        round_head_img' = ''https://thirsty-alligator-94.deno.dev?url=http%3A%2F%2Fwx.qlogo.cn%2Fa%20b'',
        biz' = ''MzA3'', uin = ''777'', key = ''abc'', pass_ticket = ''pt1'', wap_sid2 = ''CK3e'',
        time = ''1970-01-01 00:00:01'', valid = False\<rparr>,
      \<lparr>nickname' = ''fourth'', round_head_img' = [], biz' = ''MzD6'', uin = ''555'', key = ''ghi'',
        pass_ticket = ''pt4'', wap_sid2 = ''RR2'', time = ''1970-01-01 00:00:01'', valid = False\<rparr>]"
  by (simp add: sample_simps)

lemma sample_emitted:
  "map timestamp (emitted_sessions sample_runtime sample_sessions) = [2000, 1000, 1000]"
  by (simp add: sample_simps)

text \<open>
  C2, as the claim states it, fails: the store text \<open>bad_url_json\<close> parses as a list of one
  session whose \<^verbatim>\<open>url\<close> is \<^verbatim>\<open>not a url\<close>; \<^verbatim>\<open>new URL(item.url)\<close> (line 252) throws a TypeError
  outside the \<^verbatim>\<open>try\<close> of lines 244-249, and the caller gets the exception.
\<close>

theorem parseCredentialData_throws_on_unparseable_url:
  "JSON_parse sample_runtime bad_url_json = Some bad_url_sessions
   \<and> map url bad_url_sessions = [''not a url'']
   \<and> URL_new sample_runtime ''not a url'' = None
   \<and> parseCredentialData sample_runtime bad_url_json = Inl TypeError"
  by (simp add: sample_simps)

text \<open>
  C2, amended. For an input that parses as a list of sessions, \<open>parseCredentialData\<close>
  returns a list, raising nothing, exactly when the \<^verbatim>\<open>url\<close> of every session is one that
  the URL constructor accepts and no session with all five fields has a lone surrogate
  in its avatar. Otherwise it raises to its caller the error of the first session, in
  descending order of timestamp, that has one: the TypeError of \<^verbatim>\<open>new URL\<close> (line 252) or
  the URIError of \<^verbatim>\<open>encodeURIComponent\<close> (line 271).
\<close>

theorem parseCredentialData_returns_or_raises:
  assumes "JSON_parse rt data = Some list"
  shows "((\<exists>out. parseCredentialData rt data = Inr out)
          = (\<forall>c\<in>set list. URL_new rt (url c) \<noteq> None
               \<and> \<not> (has_all_five rt c \<and> lone_surrogate_in (round_head_img c))))
     \<and> (\<forall>c. find (\<lambda>c. item_error rt c \<noteq> None) (Array_sort by_timestamp_desc list) = Some c \<longrightarrow>
           c \<in> set list
           \<and> parseCredentialData rt data = Inl (the (item_error rt c))
           \<and> (if URL_new rt (url c) = None then item_error rt c = Some TypeError
               else item_error rt c = Some URIError))"
proof (intro conjI allI impI)
  have ok: "(item_error rt c = None)
      = (URL_new rt (url c) \<noteq> None \<and> \<not> (has_all_five rt c \<and> lone_surrogate_in (round_head_img c)))"
    for c
    by (auto simp: item_error_def)
  show "(\<exists>out. parseCredentialData rt data = Inr out)
      = (\<forall>c\<in>set list. URL_new rt (url c) \<noteq> None
           \<and> \<not> (has_all_five rt c \<and> lone_surrogate_in (round_head_img c)))"
  proof
    assume "\<exists>out. parseCredentialData rt data = Inr out"
    then obtain out where "parseCredentialData rt data = Inr out" by blast
    from parseCredentialData_Inr_no_error [OF assms this] show
      "\<forall>c\<in>set list. URL_new rt (url c) \<noteq> None
         \<and> \<not> (has_all_five rt c \<and> lone_surrogate_in (round_head_img c))"
      by (simp add: ok)
  next
    assume "\<forall>c\<in>set list. URL_new rt (url c) \<noteq> None
        \<and> \<not> (has_all_five rt c \<and> lone_surrogate_in (round_head_img c))"
    then have "\<forall>c\<in>set list. item_error rt c = None"
      by (simp add: ok)
    from parseCredentialData_emits [OF assms this] show "\<exists>out. parseCredentialData rt data = Inr out"
      by blast
  qed
next
  fix c
  assume first: "find (\<lambda>c. item_error rt c \<noteq> None) (Array_sort by_timestamp_desc list) = Some c"
  then have "c \<in> set (Array_sort by_timestamp_desc list)" and err: "item_error rt c \<noteq> None"
    by (auto simp: find_Some_iff)
  then show "c \<in> set list"
    by (simp add: Array_sort_sort_key)
  from assms first show "parseCredentialData rt data = Inl (the (item_error rt c))"
    by (rule parseCredentialData_raises)
  from err show "if URL_new rt (url c) = None then item_error rt c = Some TypeError
      else item_error rt c = Some URIError"
    by (auto simp: item_error_def split: if_splits)
qed

theorem parseCredentialData_returns_or_raises_witness:
  "JSON_parse sample_runtime sample_json = Some sample_sessions
   \<and> list_all (\<lambda>c. URL_new sample_runtime (url c) \<noteq> None
        \<and> \<not> (has_all_five sample_runtime c \<and> lone_surrogate_in (round_head_img c))) sample_sessions
   \<and> (\<exists>out. parseCredentialData sample_runtime sample_json = Inr out)
   \<and> JSON_parse sample_runtime surrogate_json = Some surrogate_sessions
   \<and> find (\<lambda>c. item_error sample_runtime c \<noteq> None) (Array_sort by_timestamp_desc surrogate_sessions)
       = Some (hd surrogate_sessions)
   \<and> parseCredentialData sample_runtime surrogate_json = Inl URIError"
proof -
  have ok: "\<forall>c\<in>set sample_sessions. URL_new sample_runtime (url c) \<noteq> None
      \<and> \<not> (has_all_five sample_runtime c \<and> lone_surrogate_in (round_head_img c))"
    by (simp add: sample_simps)
  from parseCredentialData_returns_or_raises [OF sample_json_parses] ok
  have returns: "\<exists>out. parseCredentialData sample_runtime sample_json = Inr out"
    by blast
  have first: "find (\<lambda>c. item_error sample_runtime c \<noteq> None)
      (Array_sort by_timestamp_desc surrogate_sessions) = Some (hd surrogate_sessions)"
    by (simp add: sample_simps)
  have err: "item_error sample_runtime (hd surrogate_sessions) = Some URIError"
    by (simp add: sample_simps)
  from parseCredentialData_returns_or_raises [OF surrogate_json_parses] first
  have "parseCredentialData sample_runtime surrogate_json
      = Inl (the (item_error sample_runtime (hd surrogate_sessions)))"
    by blast
  then have raises: "parseCredentialData sample_runtime surrogate_json = Inl URIError"
    by (simp add: err)
  from sample_json_parses ok returns surrogate_json_parses first raises show ?thesis
    by (simp add: list_all_iff)
qed

text \<open>
  C3, as the claim states it, fails. The text \<open>bad_url_json\<close> parses as a list of one
  session; its \<^verbatim>\<open>url\<close> is no URL, so it has none of the query parameters and is not
  among the sessions with all five fields, of which there are none. The claim gives the
  output without it, of length 0; the code gives no output: it raises the TypeError of
  line 252.
\<close>

theorem parseCredentialData_raises_instead_of_omitting:
  "JSON_parse sample_runtime bad_url_json = Some bad_url_sessions
   \<and> length bad_url_sessions = 1
   \<and> \<not> has_all_five sample_runtime (hd bad_url_sessions)
   \<and> length (filter (has_all_five sample_runtime) bad_url_sessions) = 0
   \<and> parseCredentialData sample_runtime bad_url_json = Inl TypeError
   \<and> \<not> (\<exists>out. parseCredentialData sample_runtime bad_url_json = Inr out)"
  by (simp add: sample_simps)

text \<open>
  C3, amended. For an input list of sessions on which the extraction raises nothing (the
  text parses as JSON, the \<^verbatim>\<open>url\<close> of each session parses as a URL, and no session with all
  five fields has a lone surrogate in its avatar), the output holds one credential for
  each session that has all five required fields and nothing else: its length is the
  number of input sessions with all five fields, and its \<open>i\<close>-th element is what the loop
  body pushes for the \<open>i\<close>-th of them. A session that lacks \<^verbatim>\<open>__biz\<close>, \<^verbatim>\<open>uin\<close>, \<^verbatim>\<open>key\<close>,
  \<^verbatim>\<open>pass_ticket\<close> (a parameter with an empty value counts as lacking) or the cookie token
  is behind no element of the output.
\<close>

theorem parseCredentialData_omits_incomplete_sessions:
  assumes "JSON_parse rt data = Some list"
    and "\<forall>c\<in>set list. URL_new rt (url c) \<noteq> None
           \<and> \<not> (has_all_five rt c \<and> lone_surrogate_in (round_head_img c))"
  shows "\<exists>out. parseCredentialData rt data = Inr out
      \<and> length out = length (filter (has_all_five rt) list)
      \<and> set (emitted_sessions rt list) = {c \<in> set list. has_all_five rt c}
      \<and> (\<forall>i<length out. parse_item rt i (emitted_sessions rt list ! i) = Inr (Some (out ! i)))
      \<and> (\<forall>c k p. \<not> has_all_five rt c \<longrightarrow> parse_item rt k c \<noteq> Inr (Some p))"
proof -
  from assms(2) have "\<forall>c\<in>set list. item_error rt c = None"
    by (auto simp: item_error_def)
  from parseCredentialData_emits [OF assms(1) this] obtain out where
    out: "parseCredentialData rt data = Inr out"
      "length out = length (emitted_sessions rt list)"
      "\<forall>i<length out. parse_item rt i (emitted_sessions rt list ! i) = Inr (Some (out ! i))"
    by blast
  have kept: "set (emitted_sessions rt list) = {c \<in> set list. has_all_five rt c}"
    by (auto simp: emitted_sessions_def Array_sort_sort_key)
  have dropped: "\<forall>c k p. \<not> has_all_five rt c \<longrightarrow> parse_item rt k c \<noteq> Inr (Some p)"
    using parse_item_Some by blast
  from out kept dropped show ?thesis
    by (simp add: length_emitted_sessions)
qed

theorem parseCredentialData_omits_incomplete_sessions_witness:
  "JSON_parse sample_runtime sample_json = Some sample_sessions
   \<and> list_all (\<lambda>c. URL_new sample_runtime (url c) \<noteq> None
        \<and> \<not> (has_all_five sample_runtime c \<and> lone_surrogate_in (round_head_img c))) sample_sessions
   \<and> length sample_sessions = 4
   \<and> map (has_all_five sample_runtime) sample_sessions = [True, False, True, True]
   \<and> (\<exists>out. parseCredentialData sample_runtime sample_json = Inr out \<and> length out = 3)"
proof -
  have ok: "\<forall>c\<in>set sample_sessions. URL_new sample_runtime (url c) \<noteq> None
      \<and> \<not> (has_all_five sample_runtime c \<and> lone_surrogate_in (round_head_img c))"
    by (simp add: sample_simps)
  have which: "map (has_all_five sample_runtime) sample_sessions = [True, False, True, True]"
    by (simp add: sample_simps)
  from parseCredentialData_omits_incomplete_sessions [OF sample_json_parses ok] sample_complete
  have "\<exists>out. parseCredentialData sample_runtime sample_json = Inr out \<and> length out = 3"
    by auto
  with sample_json_parses ok which show ?thesis
    by (simp add: list_all_iff sample_sessions_def)
qed

text \<open>
  C4. The \<open>i\<close>-th element of the output comes from the session \<open>emitted_sessions rt list ! i\<close>,
  captured at \<open>T\<close>, and \<^verbatim>\<open>Date.now()\<close> is read for it once, as the \<open>i\<close>-th reading of the
  clock. Its flag \<open>valid\<close> is true exactly when that reading is strictly less than
  \<open>T + 25 min\<close> (in milliseconds): true in \<open>[T, T + 25 min)\<close>, false from \<open>T + 25 min\<close> on.
\<close>

theorem valid_iff_now_before_25_minutes:
  assumes "JSON_parse rt data = Some list"
    and "parseCredentialData rt data = Inr out"
    and "i < length out"
  shows "parse_item rt i (emitted_sessions rt list ! i) = Inr (Some (out ! i))
      \<and> valid (out ! i) = (Date_now rt i < timestamp (emitted_sessions rt list ! i) + 25 * 60 * 1000)"
proof -
  have urls: "\<forall>c\<in>set list. item_error rt c = None"
    using assms(1,2) by (rule parseCredentialData_Inr_no_error)
  from parseCredentialData_emits [OF assms(1) urls] assms(2,3)
  have item: "parse_item rt i (emitted_sessions rt list ! i) = Inr (Some (out ! i))"
    by auto
  from parse_item_valid [OF item] item show ?thesis by simp
qed

theorem valid_iff_now_before_25_minutes_witness:
  "JSON_parse sample_runtime sample_json = Some sample_sessions
   \<and> map timestamp (emitted_sessions sample_runtime sample_sessions) = [2000, 1000, 1000]
   \<and> map (Date_now sample_runtime) [0, 1, 2] = [1500999, 1501000, 1501001]
   \<and> (\<exists>out. parseCredentialData sample_runtime sample_json = Inr out \<and> length out = 3
        \<and> valid (out ! 0) \<and> \<not> valid (out ! 1) \<and> \<not> valid (out ! 2))"
proof -
  obtain out where out: "parseCredentialData sample_runtime sample_json = Inr out" "length out = 3"
    using sample_output by simp
  have ts: "emitted_sessions sample_runtime sample_sessions ! 0 = sample_sessions ! 2"
      "emitted_sessions sample_runtime sample_sessions ! 1 = sample_sessions ! 0"
      "emitted_sessions sample_runtime sample_sessions ! 2 = sample_sessions ! 3"
    by (simp_all add: sample_simps)
  have now: "map (Date_now sample_runtime) [0, 1, 2] = [1500999, 1501000, 1501001]"
    by (simp add: sample_runtime_def)
  have "valid (out ! 0)"
    using valid_iff_now_before_25_minutes [OF sample_json_parses out(1), of 0] out(2) ts(1)
    by (simp add: sample_runtime_def sample_sessions_def)
  moreover have "\<not> valid (out ! 1)"
    using valid_iff_now_before_25_minutes [OF sample_json_parses out(1), of 1] out(2) ts(2)
    by (simp add: sample_runtime_def sample_sessions_def)
  moreover have "\<not> valid (out ! 2)"
    using valid_iff_now_before_25_minutes [OF sample_json_parses out(1), of 2] out(2) ts(3)
    by (simp add: sample_runtime_def sample_sessions_def)
  ultimately show ?thesis
    using out sample_json_parses sample_emitted now by blast
qed

text \<open>
  C5. The output follows the sessions behind it, \<open>emitted_sessions rt list\<close>, element by
  element: its \<open>i\<close>-th element is the credential that the loop body makes of the \<open>i\<close>-th
  of these sessions (so its field \<open>time\<close> is the formatted capture timestamp of that
  session), and no other list is. These sessions are the input sessions with all five
  fields, in descending order of capture timestamp, and those of one timestamp stand in
  the order they have in the input. So the output is in descending order of the capture
  timestamps of its elements, and elements of equal timestamp keep their input order.
\<close>

theorem output_sorted_by_timestamp_desc_stable:
  assumes "JSON_parse rt data = Some list"
    and "parseCredentialData rt data = Inr out"
  shows "length out = length (emitted_sessions rt list)
      \<and> (\<forall>i<length out. parse_item rt i (emitted_sessions rt list ! i) = Inr (Some (out ! i)))
      \<and> (\<forall>out'. length out' = length out
            \<and> (\<forall>i<length out. parse_item rt i (emitted_sessions rt list ! i) = Inr (Some (out' ! i)))
            \<longrightarrow> out' = out)
      \<and> map time out = map (\<lambda>c. dayjs_format rt (timestamp c)) (emitted_sessions rt list)
      \<and> (\<forall>i j. i < j \<and> j < length out \<longrightarrow>
            timestamp (emitted_sessions rt list ! j) \<le> timestamp (emitted_sessions rt list ! i))
      \<and> (\<forall>t. filter (\<lambda>c. timestamp c = t) (emitted_sessions rt list)
             = filter (\<lambda>c. timestamp c = t) (filter (has_all_five rt) list))"
proof -
  have urls: "\<forall>c\<in>set list. item_error rt c = None"
    using assms by (rule parseCredentialData_Inr_no_error)
  from parseCredentialData_emits [OF assms(1) urls] assms(2)
  have len: "length out = length (emitted_sessions rt list)"
    and items: "\<forall>i<length out. parse_item rt i (emitted_sessions rt list ! i) = Inr (Some (out ! i))"
    by auto
  have unique: "out' = out"
    if "length out' = length out"
      and "\<forall>i<length out. parse_item rt i (emitted_sessions rt list ! i) = Inr (Some (out' ! i))"
    for out'
  proof (rule nth_equalityI)
    show "length out' = length out" by (rule that(1))
    fix i assume "i < length out'"
    with that items have "Inr (Some (out' ! i)) = (Inr (Some (out ! i)) :: js_error + ParsedCredential option)"
      by metis
    then show "out' ! i = out ! i" by simp
  qed
  have "time (out ! i) = dayjs_format rt (timestamp (emitted_sessions rt list ! i))"
    if "i < length out" for i
  proof -
    from items that have "parse_item rt i (emitted_sessions rt list ! i) = Inr (Some (out ! i))"
      by simp
    then show ?thesis
      by (rule parse_item_time)
  qed
  with len have times: "map time out = map (\<lambda>c. dayjs_format rt (timestamp c)) (emitted_sessions rt list)"
    by (intro nth_equalityI) simp_all
  have desc: "timestamp (emitted_sessions rt list ! j) \<le> timestamp (emitted_sessions rt list ! i)"
    if "i < j \<and> j < length out" for i j
    using emitted_sessions_sorted [of rt list] that len
    by (simp add: sorted_wrt_iff_nth_less)
  from len items unique times desc show ?thesis
    by (simp add: emitted_sessions_stable)
qed

theorem output_sorted_by_timestamp_desc_stable_witness:
  "JSON_parse sample_runtime sample_json = Some sample_sessions
   \<and> map timestamp sample_sessions = [1000, 3000, 2000, 1000]
   \<and> map nickname sample_sessions = [''first'', ''second'', ''third'', ''fourth'']
   \<and> map nickname (emitted_sessions sample_runtime sample_sessions) = [''third'', ''first'', ''fourth'']
   \<and> (\<exists>out. parseCredentialData sample_runtime sample_json = Inr out
        \<and> map nickname' out = [''third'', ''first'', ''fourth'']
        \<and> map time out = [''1970-01-01 00:00:02'', ''1970-01-01 00:00:01'', ''1970-01-01 00:00:01''])"
proof -
  have out: "parseCredentialData sample_runtime sample_json = Inr (projr (parseCredentialData sample_runtime sample_json))"
    using sample_output by simp
  have names: "map nickname' (projr (parseCredentialData sample_runtime sample_json)) = [''third'', ''first'', ''fourth'']"
    using sample_output by simp
  have kept: "emitted_sessions sample_runtime sample_sessions
      = [sample_sessions ! 2, sample_sessions ! 0, sample_sessions ! 3]"
    by (simp add: sample_simps)
  from output_sorted_by_timestamp_desc_stable [OF sample_json_parses out]
  have "map time (projr (parseCredentialData sample_runtime sample_json))
      = map (\<lambda>c. dayjs_format sample_runtime (timestamp c)) (emitted_sessions sample_runtime sample_sessions)"
    by blast
  then have "map time (projr (parseCredentialData sample_runtime sample_json))
      = [''1970-01-01 00:00:02'', ''1970-01-01 00:00:01'', ''1970-01-01 00:00:01'']"
    unfolding kept by (simp add: sample_runtime_def sample_sessions_def)
  with out names kept sample_json_parses show ?thesis
    by (auto simp: sample_sessions_def)
qed

text \<open>
  C8. For every input string that does not parse as JSON, \<open>parseCredentialData\<close> returns
  the empty list and raises no error to the caller.
\<close>

theorem parseCredentialData_malformed_json:
  "JSON_parse rt data = None \<Longrightarrow> parseCredentialData rt data = Inr []"
  by (simp add: parseCredentialData_def)

theorem parseCredentialData_malformed_json_witness:
  "JSON_parse sample_runtime ''{not json'' = None
   \<and> parseCredentialData sample_runtime ''{not json'' = Inr []"
proof -
  have malformed: "JSON_parse sample_runtime ''{not json'' = None"
    by (simp add: sample_runtime_def sample_json_def bad_url_json_def surrogate_json_def)
  from parseCredentialData_malformed_json [OF malformed] malformed show ?thesis
    by simp
qed

section \<open>Properties of \<^verbatim>\<open>removeBizCredential\<close>\<close>

lemma removeBizCredential_unreadable:
  assumes "read_error d p \<noteq> None \<or> files d p = None"
  shows "removeBizCredential rt p d target = (Inr False, d\<lparr>events := events d @ [ReadFile p]\<rparr>)"
  using assms
  by (auto simp: removeBizCredential_def removeBizCredential_try_def readFileContent_def Let_def
           split: option.splits)

lemma removeBizCredential_unparseable:
  assumes "read_error d p = None" and "files d p = Some data" and "JSON_parse rt data = None"
  shows "removeBizCredential rt p d target = (Inr False, d\<lparr>events := events d @ [ReadFile p]\<rparr>)"
  using assms
  by (simp add: removeBizCredential_def removeBizCredential_try_def readFileContent_def Let_def)

lemma removeBizCredential_written:
  assumes "read_error d p = None" and "files d p = Some data" and "JSON_parse rt data = Some list"
    and "write_error d p = None"
  shows "removeBizCredential rt p d target =
     (Inr True,
      d\<lparr>events := events d @ [ReadFile p,
           WriteFile p (JSON_stringify rt (filter (\<lambda>item. biz item \<noteq> target) list))],
        files := (files d)(p \<mapsto> JSON_stringify rt (filter (\<lambda>item. biz item \<noteq> target) list))\<rparr>)"
  using assms
  by (simp add: removeBizCredential_def removeBizCredential_try_def readFileContent_def
        writeFileContent_def Let_def)

lemma removeBizCredential_write_fails:
  assumes "read_error d p = None" and "files d p = Some data" and "JSON_parse rt data = Some list"
    and "write_error d p = Some (code, left)"
  shows "fst (removeBizCredential rt p d target) = Inr False"
  using assms
  by (simp add: removeBizCredential_def removeBizCredential_try_def readFileContent_def
        writeFileContent_def Let_def)

lemma removeBizCredential_total: "\<exists>ok. fst (removeBizCredential rt p d target) = Inr ok"
  by (auto simp: removeBizCredential_def split: prod.splits sum.splits)

lemma filter_absent_target:
  "target \<notin> biz ` set list \<Longrightarrow> filter (\<lambda>item. biz item \<noteq> target) list = list"
  by (induction list) auto

lemmas store_simps = store_runtime_def store_disk_def store_spaced_def store_ab_def store_b_def
  entry_a_def entry_b_def removeBizCredential_def removeBizCredential_try_def readFileContent_def
  writeFileContent_def

text \<open>
  C6. With the store at \<open>p\<close> on the disk \<open>d\<close> and the target \<open>target\<close>:
  \<^item> if the store is read and parses as a list and the write succeeds, the result is true
    and the store then holds the serialisation of the list without the entries whose
    \<open>biz\<close> is the target (the list itself when no entry has it);
  \<^item> if the store is read and does not parse, the result is false, no write is attempted
    and no file changes;
  \<^item> if the read fails or the write fails, the result is false;
  \<^item> in every case the operation returns a boolean: it raises nothing.
\<close>

theorem removeBizCredential_contract:
  "(\<forall>data list. read_error d p = None \<and> files d p = Some data \<and> JSON_parse rt data = Some list
       \<and> write_error d p = None \<longrightarrow>
       fst (removeBizCredential rt p d target) = Inr True
       \<and> files (snd (removeBizCredential rt p d target)) p
           = Some (JSON_stringify rt (filter (\<lambda>item. biz item \<noteq> target) list))
       \<and> (target \<notin> biz ` set list \<longrightarrow>
            files (snd (removeBizCredential rt p d target)) p = Some (JSON_stringify rt list)))
   \<and> (\<forall>data. read_error d p = None \<and> files d p = Some data \<and> JSON_parse rt data = None \<longrightarrow>
       fst (removeBizCredential rt p d target) = Inr False
       \<and> events (snd (removeBizCredential rt p d target)) = events d @ [ReadFile p]
       \<and> files (snd (removeBizCredential rt p d target)) = files d)
   \<and> (read_error d p \<noteq> None \<or> files d p = None \<longrightarrow>
       fst (removeBizCredential rt p d target) = Inr False
       \<and> events (snd (removeBizCredential rt p d target)) = events d @ [ReadFile p]
       \<and> files (snd (removeBizCredential rt p d target)) = files d)
   \<and> (write_error d p \<noteq> None \<longrightarrow> fst (removeBizCredential rt p d target) = Inr False)
   \<and> (\<exists>ok. fst (removeBizCredential rt p d target) = Inr ok)"
proof (intro conjI allI impI)
  fix data list
  assume a: "read_error d p = None \<and> files d p = Some data \<and> JSON_parse rt data = Some list
    \<and> write_error d p = None"
  then have "read_error d p = None" and "files d p = Some data"
    and "JSON_parse rt data = Some list" and "write_error d p = None"
    by simp_all
  then have w: "removeBizCredential rt p d target =
     (Inr True,
      d\<lparr>events := events d @ [ReadFile p,
           WriteFile p (JSON_stringify rt (filter (\<lambda>item. biz item \<noteq> target) list))],
        files := (files d)(p \<mapsto> JSON_stringify rt (filter (\<lambda>item. biz item \<noteq> target) list))\<rparr>)"
    by (rule removeBizCredential_written)
  show "fst (removeBizCredential rt p d target) = Inr True"
    by (simp add: w)
  show "files (snd (removeBizCredential rt p d target)) p
      = Some (JSON_stringify rt (filter (\<lambda>item. biz item \<noteq> target) list))"
    by (simp add: w)
  show "files (snd (removeBizCredential rt p d target)) p = Some (JSON_stringify rt list)"
    if "target \<notin> biz ` set list"
    using that by (simp add: w filter_absent_target)
next
  fix data
  assume a: "read_error d p = None \<and> files d p = Some data \<and> JSON_parse rt data = None"
  then have "read_error d p = None" and "files d p = Some data" and "JSON_parse rt data = None"
    by simp_all
  then have u: "removeBizCredential rt p d target = (Inr False, d\<lparr>events := events d @ [ReadFile p]\<rparr>)"
    by (rule removeBizCredential_unparseable)
  show "fst (removeBizCredential rt p d target) = Inr False"
    and "events (snd (removeBizCredential rt p d target)) = events d @ [ReadFile p]"
    and "files (snd (removeBizCredential rt p d target)) = files d"
    by (simp_all add: u)
next
  assume "read_error d p \<noteq> None \<or> files d p = None"
  then have u: "removeBizCredential rt p d target = (Inr False, d\<lparr>events := events d @ [ReadFile p]\<rparr>)"
    by (rule removeBizCredential_unreadable)
  show "fst (removeBizCredential rt p d target) = Inr False"
    and "events (snd (removeBizCredential rt p d target)) = events d @ [ReadFile p]"
    and "files (snd (removeBizCredential rt p d target)) = files d"
    by (simp_all add: u)
next
  assume w: "write_error d p \<noteq> None"
  show "fst (removeBizCredential rt p d target) = Inr False"
  proof (cases "read_error d p = None \<and> files d p \<noteq> None")
    case False
    then have "read_error d p \<noteq> None \<or> files d p = None" by auto
    then show ?thesis by (simp add: removeBizCredential_unreadable)
  next
    case True
    then obtain data where data: "read_error d p = None" "files d p = Some data" by blast
    from w obtain code left where wf: "write_error d p = Some (code, left)" by auto
    show ?thesis
    proof (cases "JSON_parse rt data")
      case None
      with data show ?thesis by (simp add: removeBizCredential_unparseable)
    next
      case (Some list)
      from removeBizCredential_write_fails [OF data Some wf] show ?thesis .
    qed
  qed
next
  show "\<exists>ok. fst (removeBizCredential rt p d target) = Inr ok"
    by (rule removeBizCredential_total)
qed

theorem removeBizCredential_contract_witness:
  "fst (removeBizCredential store_runtime ''/data/credentials.json'' (store_disk store_ab) ''a'') = Inr True
   \<and> files (snd (removeBizCredential store_runtime ''/data/credentials.json'' (store_disk store_ab) ''a''))
        ''/data/credentials.json'' = Some store_b
   \<and> fst (removeBizCredential store_runtime ''/data/credentials.json'' (store_disk store_ab) ''z'') = Inr True
   \<and> files (snd (removeBizCredential store_runtime ''/data/credentials.json'' (store_disk store_ab) ''z''))
        ''/data/credentials.json'' = Some store_ab
   \<and> fst (removeBizCredential store_runtime ''/data/credentials.json'' (store_disk ''{not json'') ''a'') = Inr False
   \<and> events (snd (removeBizCredential store_runtime ''/data/credentials.json'' (store_disk ''{not json'') ''a''))
        = [ReadFile ''/data/credentials.json'']
   \<and> fst (removeBizCredential store_runtime ''/missing.json'' (store_disk store_ab) ''a'') = Inr False
   \<and> fst (removeBizCredential store_runtime ''/data/credentials.json''
        ((store_disk store_ab)\<lparr>write_error := (\<lambda>p. Some (''EACCES'', Some []))\<rparr>) ''a'') = Inr False"
proof -
  let ?p = "''/data/credentials.json''"
  have parse: "JSON_parse store_runtime store_ab = Some [entry_a, entry_b]"
    by (simp add: store_runtime_def store_ab_def store_spaced_def)
  have pre: "read_error (store_disk store_ab) ?p = None \<and> files (store_disk store_ab) ?p = Some store_ab
      \<and> JSON_parse store_runtime store_ab = Some [entry_a, entry_b]
      \<and> write_error (store_disk store_ab) ?p = None"
    using parse by (simp add: store_disk_def)
  have a: "filter (\<lambda>item. biz item \<noteq> ''a'') [entry_a, entry_b] = [entry_b]"
    by (simp add: entry_a_def entry_b_def)
  have z: "''z'' \<notin> biz ` set [entry_a, entry_b]"
    by (simp add: entry_a_def entry_b_def)
  have str: "JSON_stringify store_runtime [entry_b] = store_b"
      "JSON_stringify store_runtime [entry_a, entry_b] = store_ab"
    by (simp_all add: store_runtime_def entry_a_def entry_b_def)
  have bad: "read_error (store_disk ''{not json'') ?p = None
      \<and> files (store_disk ''{not json'') ?p = Some ''{not json''
      \<and> JSON_parse store_runtime ''{not json'' = None"
    by (simp add: store_disk_def store_runtime_def store_ab_def store_spaced_def store_b_def)
  have missing: "read_error (store_disk store_ab) ''/missing.json'' \<noteq> None
      \<or> files (store_disk store_ab) ''/missing.json'' = None"
    by (simp add: store_disk_def)
  have wfail: "write_error ((store_disk store_ab)\<lparr>write_error := (\<lambda>p. Some (''EACCES'', Some []))\<rparr>) ?p \<noteq> None"
    by simp
  note on_a = removeBizCredential_contract [where rt = store_runtime and d = "store_disk store_ab"
      and p = ?p and target = "''a''"]
  note on_z = removeBizCredential_contract [where rt = store_runtime and d = "store_disk store_ab"
      and p = ?p and target = "''z''"]
  note on_bad = removeBizCredential_contract [where rt = store_runtime
      and d = "store_disk ''{not json''" and p = ?p and target = "''a''"]
  note on_missing = removeBizCredential_contract [where rt = store_runtime
      and d = "store_disk store_ab" and p = "''/missing.json''" and target = "''a''"]
  note on_wfail = removeBizCredential_contract [where rt = store_runtime
      and d = "(store_disk store_ab)\<lparr>write_error := (\<lambda>p. Some (''EACCES'', Some []))\<rparr>"
      and p = ?p and target = "''a''"]
  from on_a [THEN conjunct1, rule_format, OF pre]
  have "fst (removeBizCredential store_runtime ?p (store_disk store_ab) ''a'') = Inr True"
    and "files (snd (removeBizCredential store_runtime ?p (store_disk store_ab) ''a'')) ?p
      = Some (JSON_stringify store_runtime (filter (\<lambda>item. biz item \<noteq> ''a'') [entry_a, entry_b]))"
    by blast+
  then have 1: "fst (removeBizCredential store_runtime ?p (store_disk store_ab) ''a'') = Inr True
      \<and> files (snd (removeBizCredential store_runtime ?p (store_disk store_ab) ''a'')) ?p = Some store_b"
    unfolding a str by blast
  from on_z [THEN conjunct1, rule_format, OF pre] z
  have "fst (removeBizCredential store_runtime ?p (store_disk store_ab) ''z'') = Inr True"
    and "files (snd (removeBizCredential store_runtime ?p (store_disk store_ab) ''z'')) ?p
      = Some (JSON_stringify store_runtime [entry_a, entry_b])"
    by blast+
  then have 2: "fst (removeBizCredential store_runtime ?p (store_disk store_ab) ''z'') = Inr True
      \<and> files (snd (removeBizCredential store_runtime ?p (store_disk store_ab) ''z'')) ?p = Some store_ab"
    unfolding str by blast
  from on_bad [THEN conjunct2, THEN conjunct1, rule_format, OF bad]
  have 3: "fst (removeBizCredential store_runtime ?p (store_disk ''{not json'') ''a'') = Inr False
      \<and> events (snd (removeBizCredential store_runtime ?p (store_disk ''{not json'') ''a'')) = [ReadFile ?p]"
    by (simp add: store_disk_def)
  from on_missing [THEN conjunct2, THEN conjunct2, THEN conjunct1, rule_format, OF missing]
  have 4: "fst (removeBizCredential store_runtime ''/missing.json'' (store_disk store_ab) ''a'') = Inr False"
    by blast
  from on_wfail [THEN conjunct2, THEN conjunct2, THEN conjunct2, THEN conjunct1, rule_format, OF wfail]
  have 5: "fst (removeBizCredential store_runtime ?p
      ((store_disk store_ab)\<lparr>write_error := (\<lambda>p. Some (''EACCES'', Some []))\<rparr>) ''a'') = Inr False"
    by blast
  from 1 2 3 4 5 show ?thesis by blast
qed

lemma removeBizCredential_parsed:
  assumes "read_error d p = None" and "files d p = Some data" and "JSON_parse rt data = Some list"
  shows "events (snd (removeBizCredential rt p d target))
       = events d @ [ReadFile p,
           WriteFile p (JSON_stringify rt (filter (\<lambda>item. biz item \<noteq> target) list))]"
  using assms
  by (simp add: removeBizCredential_def removeBizCredential_try_def readFileContent_def
        writeFileContent_def Let_def split: option.splits prod.splits)

text \<open>
  C10. Whenever the store is read and parses as a list, \<open>removeBizCredential\<close> writes the
  store, once, whatever the list holds: the bytes it writes are the serialisation of the
  filtered list, and when the write succeeds they are the new content of the store.
  When no entry has the target \<open>biz\<close> they are the serialisation of the parsed list
  itself, whatever the bytes of the store were before.
\<close>

theorem removeBizCredential_always_rewrites:
  assumes "read_error d p = None" and "files d p = Some data"
    and "JSON_parse rt data = Some list"
  shows "events (snd (removeBizCredential rt p d target))
       = events d @ [ReadFile p, WriteFile p (JSON_stringify rt (filter (\<lambda>item. biz item \<noteq> target) list))]
     \<and> (write_error d p = None \<longrightarrow>
           fst (removeBizCredential rt p d target) = Inr True
           \<and> files (snd (removeBizCredential rt p d target))
             = (files d)(p \<mapsto> JSON_stringify rt (filter (\<lambda>item. biz item \<noteq> target) list)))
     \<and> ((\<forall>item\<in>set list. biz item \<noteq> target) \<longrightarrow>
           events (snd (removeBizCredential rt p d target))
             = events d @ [ReadFile p, WriteFile p (JSON_stringify rt list)]
           \<and> (write_error d p = None \<longrightarrow>
                files (snd (removeBizCredential rt p d target)) p = Some (JSON_stringify rt list)))"
proof -
  have absent: "filter (\<lambda>item. biz item \<noteq> target) list = list"
    if "\<forall>item\<in>set list. biz item \<noteq> target"
    using that by (intro filter_absent_target) auto
  have written: "fst (removeBizCredential rt p d target) = Inr True
      \<and> files (snd (removeBizCredential rt p d target))
        = (files d)(p \<mapsto> JSON_stringify rt (filter (\<lambda>item. biz item \<noteq> target) list))"
    if "write_error d p = None"
    unfolding removeBizCredential_written [OF assms that] by simp
  from removeBizCredential_parsed [OF assms] written absent show ?thesis
    by auto
qed

theorem removeBizCredential_always_rewrites_witness:
  "files (store_disk store_spaced) ''/data/credentials.json'' = Some store_spaced
   \<and> JSON_parse store_runtime store_spaced = Some [entry_a, entry_b]
   \<and> list_all (\<lambda>item. biz item \<noteq> ''z'') [entry_a, entry_b]
   \<and> events (snd (removeBizCredential store_runtime ''/data/credentials.json'' (store_disk store_spaced) ''z''))
       = [ReadFile ''/data/credentials.json'', WriteFile ''/data/credentials.json'' store_ab]
   \<and> files (snd (removeBizCredential store_runtime ''/data/credentials.json'' (store_disk store_spaced) ''z''))
        ''/data/credentials.json'' = Some store_ab
   \<and> store_ab \<noteq> store_spaced
   \<and> JSON_parse store_runtime store_ab = JSON_parse store_runtime store_spaced"
proof -
  let ?p = "''/data/credentials.json''"
  have r: "read_error (store_disk store_spaced) ?p = None"
    and f: "files (store_disk store_spaced) ?p = Some store_spaced"
    and w: "write_error (store_disk store_spaced) ?p = None"
    by (simp_all add: store_disk_def)
  have parse: "JSON_parse store_runtime store_spaced = Some [entry_a, entry_b]"
    by (simp add: store_runtime_def)
  have parse': "JSON_parse store_runtime store_ab = Some [entry_a, entry_b]"
    by (simp add: store_runtime_def store_ab_def store_spaced_def)
  have none: "\<forall>item\<in>set [entry_a, entry_b]. biz item \<noteq> ''z''"
    by (simp add: entry_a_def entry_b_def)
  have str: "JSON_stringify store_runtime [entry_a, entry_b] = store_ab"
    by (simp add: store_runtime_def)
  have differ: "store_ab \<noteq> store_spaced"
    by (simp add: store_ab_def store_spaced_def)
  from removeBizCredential_always_rewrites [OF r f parse, of "''z''"] none w
  have "events (snd (removeBizCredential store_runtime ?p (store_disk store_spaced) ''z''))
          = events (store_disk store_spaced) @ [ReadFile ?p, WriteFile ?p (JSON_stringify store_runtime [entry_a, entry_b])]
        \<and> files (snd (removeBizCredential store_runtime ?p (store_disk store_spaced) ''z'')) ?p
          = Some (JSON_stringify store_runtime [entry_a, entry_b])"
    by blast
  then have "events (snd (removeBizCredential store_runtime ?p (store_disk store_spaced) ''z''))
          = [ReadFile ?p, WriteFile ?p store_ab]
        \<and> files (snd (removeBizCredential store_runtime ?p (store_disk store_spaced) ''z'')) ?p = Some store_ab"
    by (simp add: str store_disk_def)
  with f parse parse' differ show ?thesis
    by (simp add: entry_a_def entry_b_def)
qed

section \<open>Properties of \<^verbatim>\<open>cleanup\<close> and \<^verbatim>\<open>startFileServer\<close>\<close>

lemma close_servers_steps:
  "close_servers co rs trace st = (r, trace', st') \<Longrightarrow>
   \<exists>ran. run_steps co (map Server_close rs) = (r, ran) \<and> steps_of trace' = steps_of trace @ ran"
proof (induction rs arbitrary: trace st)
  case Nil
  then show ?case by simp
next
  case (Cons server rs)
  show ?case
  proof (cases "Server_close_calls_back co server")
    case False
    with Cons.prems show ?thesis
      by (auto simp: steps_of_def Let_def)
  next
    case True
    with Cons.prems have "close_servers co rs (trace @ [Log 158, Server_close server])
        (st\<lparr>servers := (servers st)(server :=
           map_option (\<lambda>s. s\<lparr>listening := False\<rparr>) (servers st server))\<rparr>) = (r, trace', st')"
      by (simp add: Let_def)
    from Cons.IH [OF this] obtain ran where
      "run_steps co (map Server_close rs) = (r, ran)"
      "steps_of trace' = steps_of (trace @ [Log 158, Server_close server]) @ ran"
      by blast
    with True show ?thesis
      by (simp add: steps_of_def)
  qed
qed


lemma steps_of_registry:
  "map Server_close (Map_values m) = map (\<lambda>entry. Server_close (snd entry)) m"
  by (simp add: Map_values_def)

lemma cleanup_servers_steps:
  "\<exists>ran. run_steps co (map (\<lambda>entry. Server_close (snd entry)) (fileServer (resource st)))
          = (fst (cleanup_servers co trace st), ran)
     \<and> steps_of (fst (snd (cleanup_servers co trace st))) = steps_of trace @ ran"
proof (cases "close_servers co (Map_values (fileServer (resource st))) trace st")
  case (fields r trace' st')
  from close_servers_steps [OF fields] obtain ran where
    ran: "run_steps co (map (\<lambda>entry. Server_close (snd entry)) (fileServer (resource st))) = (r, ran)"
      "steps_of trace' = steps_of trace @ ran"
    unfolding steps_of_registry by blast
  with fields show ?thesis
    by (cases r) (auto simp: cleanup_servers_def steps_of_def)
qed



lemma run_steps_all_resolve:
  "\<forall>s\<in>set ss. step_settlement co s = Resolves \<Longrightarrow> run_steps co ss = (Resolves, ss)"
  by (induction ss) auto

lemma cleanup_is_run_steps:
  "(fst (cleanup co st), steps_of (fst (snd (cleanup co st)))) = run_steps co (planned_steps st)"
proof (cases "MitmproxyManager_close_promise co = Resolves")
  case False
  then show ?thesis
    by (cases "MitmproxyManager_close_promise co")
      (simp_all add: cleanup_def planned_steps_def steps_of_def)
next
  case mitm: True
  show ?thesis
  proof (cases "osProxy_closeProxy_promise co = Resolves")
    case False
    with mitm show ?thesis
      by (cases "osProxy_closeProxy_promise co")
        (simp_all add: cleanup_def planned_steps_def steps_of_def)
  next
    case os: True
    show ?thesis
    proof (cases "browser (resource st)")
      case None
      from cleanup_servers_steps [of co st "[Log 149, MitmproxyManager_close, osProxy_closeProxy]"]
      obtain ran where
        "run_steps co (map (\<lambda>entry. Server_close (snd entry)) (fileServer (resource st)))
          = (fst (cleanup_servers co [Log 149, MitmproxyManager_close, osProxy_closeProxy] st), ran)"
        "steps_of (fst (snd (cleanup_servers co [Log 149, MitmproxyManager_close, osProxy_closeProxy] st)))
          = steps_of [Log 149, MitmproxyManager_close, osProxy_closeProxy] @ ran"
        by blast
      with mitm os None show ?thesis
        by (simp add: cleanup_def planned_steps_def steps_of_def)
    next
      case b: (Some b)
      show ?thesis
      proof (cases "Browser_close_promise co = Resolves")
        case False
        with mitm os b show ?thesis
          by (cases "Browser_close_promise co")
            (simp_all add: cleanup_def planned_steps_def steps_of_def)
      next
        case True
        from cleanup_servers_steps
          [of co st "[Log 149, MitmproxyManager_close, osProxy_closeProxy, Log 153, Browser_close b]"]
        obtain ran where
          "run_steps co (map (\<lambda>entry. Server_close (snd entry)) (fileServer (resource st)))
            = (fst (cleanup_servers co
                 [Log 149, MitmproxyManager_close, osProxy_closeProxy, Log 153, Browser_close b] st), ran)"
          "steps_of (fst (snd (cleanup_servers co
                 [Log 149, MitmproxyManager_close, osProxy_closeProxy, Log 153, Browser_close b] st)))
            = steps_of [Log 149, MitmproxyManager_close, osProxy_closeProxy, Log 153, Browser_close b] @ ran"
          by blast
        with mitm os b True show ?thesis
          by (simp add: cleanup_def planned_steps_def steps_of_def)
      qed
    qed
  qed
qed

lemmas lifecycle_simps = serving_process_def all_resolve_def closeProxy_rejects_def
  connection_stays_open_def ports_from_49152_def cleanup_def cleanup_servers_def
  planned_steps_def steps_of_def Map_values_def Map_has_def Map_get_def initial_process_def
  startFileServer_def startFileServer_call_def on_listening_def on_error_def

text \<open>
  C7, as the claim states it, fails. In a process with a browser and two file servers,
  let \<^verbatim>\<open>osProxy.closeProxy()\<close> reject: the \<^verbatim>\<open>await\<close> of line 151 throws, nothing catches,
  \<open>cleanup\<close> rejects, and neither the browser nor any file server is closed.
\<close>

theorem cleanup_stops_at_first_failure:
  "planned_steps serving_process
     = [MitmproxyManager_close, osProxy_closeProxy, Browser_close 7, Server_close 0, Server_close 1]
   \<and> fst (cleanup closeProxy_rejects serving_process) = Rejects (Error ''closeProxy failed'')
   \<and> steps_of (fst (snd (cleanup closeProxy_rejects serving_process)))
     = [MitmproxyManager_close, osProxy_closeProxy]
   \<and> snd (snd (cleanup closeProxy_rejects serving_process)) = serving_process"
  by (simp add: lifecycle_simps)

text \<open>
  Nor does \<open>cleanup\<close> always complete when nothing rejects: while a connection to the
  first file server stays open, the callback of its \<^verbatim>\<open>close\<close> is not called, the promise
  of line 159 never settles, and \<open>cleanup\<close> stays pending before the second server and
  the last \<^verbatim>\<open>log\<close>.
\<close>

lemma cleanup_stays_pending:
  "fst (cleanup connection_stays_open serving_process) = Stays_pending
   \<and> fst (snd (cleanup connection_stays_open serving_process))
     = [Log 149, MitmproxyManager_close, osProxy_closeProxy, Log 153, Browser_close 7,
        Log 158, Server_close 0]
   \<and> map_option listening (servers (snd (snd (cleanup connection_stays_open serving_process))) 1)
     = Some True"
  by (simp add: lifecycle_simps)

text \<open>
  C7, amended. \<open>cleanup\<close>, with no other operation of the process running between its
  steps, runs the teardown steps in the fixed order: stop the interception proxy, clear
  the system proxy, close the browser if there is one, close every registered file
  server in the order of registration; each step is awaited before the next. It is not best-effort: the steps run up to the first one whose
  promise does not resolve, and the later steps do not run; \<open>cleanup\<close> then rejects with
  the error of that step if it rejected, and never completes if that step never
  settles (the callback of a \<^verbatim>\<open>server.close\<close> is not called while a connection stays
  open). When the promise of every step resolves, every step runs and the operation
  completes.
\<close>

theorem cleanup_ordered_fail_fast:
  "(fst (cleanup co st), steps_of (fst (snd (cleanup co st)))) = run_steps co (planned_steps st)
   \<and> ((\<forall>s\<in>set (planned_steps st). step_settlement co s = Resolves) \<longrightarrow>
        fst (cleanup co st) = Resolves
        \<and> steps_of (fst (snd (cleanup co st))) = planned_steps st)"
proof (intro conjI impI)
  show eq: "(fst (cleanup co st), steps_of (fst (snd (cleanup co st)))) = run_steps co (planned_steps st)"
    by (rule cleanup_is_run_steps)
  assume "\<forall>s\<in>set (planned_steps st). step_settlement co s = Resolves"
  then have "run_steps co (planned_steps st) = (Resolves, planned_steps st)"
    by (rule run_steps_all_resolve)
  with eq show "fst (cleanup co st) = Resolves"
    and "steps_of (fst (snd (cleanup co st))) = planned_steps st"
    by simp_all
qed

theorem cleanup_ordered_fail_fast_witness:
  "list_all (\<lambda>s. step_settlement all_resolve s = Resolves) (planned_steps serving_process)
   \<and> fst (cleanup all_resolve serving_process) = Resolves
   \<and> steps_of (fst (snd (cleanup all_resolve serving_process)))
     = [MitmproxyManager_close, osProxy_closeProxy, Browser_close 7, Server_close 0, Server_close 1]
   \<and> run_steps closeProxy_rejects (planned_steps serving_process)
     = (Rejects (Error ''closeProxy failed''), [MitmproxyManager_close, osProxy_closeProxy])
   \<and> run_steps connection_stays_open (planned_steps serving_process)
     = (Stays_pending,
        [MitmproxyManager_close, osProxy_closeProxy, Browser_close 7, Server_close 0])"
proof -
  have plan: "planned_steps serving_process
      = [MitmproxyManager_close, osProxy_closeProxy, Browser_close 7, Server_close 0, Server_close 1]"
    by (simp add: lifecycle_simps)
  have none: "\<forall>s\<in>set (planned_steps serving_process). step_settlement all_resolve s = Resolves"
    unfolding plan by (simp add: all_resolve_def)
  from cleanup_ordered_fail_fast [of all_resolve serving_process] none
  have "fst (cleanup all_resolve serving_process) = Resolves
      \<and> steps_of (fst (snd (cleanup all_resolve serving_process))) = planned_steps serving_process"
    by blast
  moreover have "run_steps closeProxy_rejects (planned_steps serving_process)
      = (Rejects (Error ''closeProxy failed''), [MitmproxyManager_close, osProxy_closeProxy])"
    unfolding plan by (simp add: closeProxy_rejects_def)
  moreover have "run_steps connection_stays_open (planned_steps serving_process)
      = (Stays_pending, [MitmproxyManager_close, osProxy_closeProxy, Browser_close 7, Server_close 0])"
    unfolding plan by (simp add: connection_stays_open_def)
  ultimately show ?thesis
    using none plan by (simp add: list_all_iff)
qed

subsection \<open>The registry\<close>









section \<open>The request handler and the root directory\<close>

text \<open>
  The containment check of lines 55-60: a request whose joined and normalized path does
  not start with the root gets 403, and the file system is not touched.
\<close>

lemma request_handler_forbidden:
  assumes "\<not> startsWith (path_normalize (path_join [rootDirectory, req_url])) rootDirectory"
  shows "request_handler fs rootDirectory req_url =
     Inr (\<lparr>statusCode = 403, contentType = Some ''text/html'', body = ''<h1>403 Forbidden</h1>''\<rparr>, [])"
  using assms by (simp add: request_handler_def)

lemma request_handler_plain_dotdot_forbidden:
  "request_handler srv_fs ''/srv/www'' ''/../secret.txt'' =
     Inr (\<lparr>statusCode = 403, contentType = Some ''text/html'', body = ''<h1>403 Forbidden</h1>''\<rparr>, [])"
  by code_simp

lemma request_handler_serves_index:
  "request_handler srv_fs ''/srv/www'' ''/'' =
     Inr (\<lparr>statusCode = 200, contentType = Some ''text/html'', body = ''<h1>articles</h1>''\<rparr>,
          [Exists ''/srv/www/'', Stat ''/srv/www/'', Read ''/srv/www/index.html''])"
  by code_simp

lemma request_handler_nul_throws:
  "request_handler srv_fs ''/srv/www'' ''/index.html%00'' = Inl TypeError"
  by code_simp

text \<open>
  C1 does not hold of the code. The check of line 56 is made on the path as the
  request has it, and \<^verbatim>\<open>decodeURIComponent\<close> comes after it, at line 62: in
  \<^verbatim>\<open>/..%2fsecret.txt\<close> the segment \<^verbatim>\<open>..%2fsecret.txt\<close> is no \<^verbatim>\<open>..\<close> for \<^verbatim>\<open>path.normalize\<close>,
  the check passes, and the decoded path \<^verbatim>\<open>/srv/www/../secret.txt\<close> names the file
  \<^verbatim>\<open>/srv/secret.txt\<close>, outside the root \<^verbatim>\<open>/srv/www\<close>, which is read and served. The check
  is also one of strings: the plain \<^verbatim>\<open>/../www-private/key.pem\<close> normalizes to
  \<^verbatim>\<open>/srv/www-private/key.pem\<close>, which starts with \<^verbatim>\<open>/srv/www\<close> and is served too.
\<close>

theorem request_handler_reads_outside_root:
  "request_handler srv_fs ''/srv/www'' ''/..%2fsecret.txt'' =
     Inr (\<lparr>statusCode = 200, contentType = Some ''application/octet-stream'', body = ''TOP SECRET''\<rparr>,
          [Exists ''/srv/www/../secret.txt'', Stat ''/srv/www/../secret.txt'',
           Read ''/srv/www/../secret.txt''])
   \<and> path_normalize ''/srv/www/../secret.txt'' = ''/srv/secret.txt''
   \<and> request_handler srv_fs ''/srv/www'' ''/../www-private/key.pem'' =
     Inr (\<lparr>statusCode = 200, contentType = Some ''application/octet-stream'', body = ''PRIVATE KEY''\<rparr>,
          [Exists ''/srv/www-private/key.pem'', Stat ''/srv/www-private/key.pem'',
           Read ''/srv/www-private/key.pem''])"
  by code_simp

end
